theory Spec2Isabelle
  imports Main "HOL-Library.AList"
begin

section \<open>The Lorl SDK (src/js/library.js): data model\<close>

text \<open>
  The SDK is one closure over the module variables \<open>_ws\<close>, \<open>_connected\<close>, \<open>_playerId\<close>,
  \<open>_username\<close>, \<open>_gameId\<close>, \<open>_roomId\<close>, \<open>_players\<close>, \<open>_lobbyInfo\<close>, \<open>_isHost\<close> and
  \<open>_handlers\<close>. The model threads them through every function as a record, together
  with what the browser holds for the page: the WebSocket objects, the timers, the
  promises of the three asynchronous calls, the microtask queue, and the console.
  \<open>_lobbyInfo\<close> is a reference into the store \<open>objs\<close> of lobby objects, and \<open>returned\<close>
  lists the references \<open>getLobbyInfo\<close> has handed to its callers.

  Wire messages and event payloads are typed as the protocol table gives them; a field
  the code guards with \<open>||\<close> is an option. Payload values are JSON values; the \<open>data\<close>
  of a player is a mapping from keys to JSON values. A URL that makes the \<open>WebSocket\<close>
  constructor throw is outside the model.

  \<open>_players\<close> and \<open>_handlers\<close> are plain objects, so a lookup with a key that names a
  member of \<open>Object.prototype\<close> finds that member when the object has no property of
  its own with that name. \<open>inherited\<close> holds the \<open>data\<close> property that the
  \<open>state_update\<close> case has written onto such a member, by the member's name. Two
  effects are not followed further: an assignment to \<open>_players['__proto__']\<close>, which
  replaces the prototype of the table instead of adding an entry, and a write of \<open>data\<close>
  onto \<open>Object.prototype\<close> itself, which every object then inherits. \<open>plain\<close> is true
  as long as neither has happened; from then on the record no longer tells what such
  lookups find.

  Time is the order of the inputs: a timer records its delay and expires as an input of
  its own. A function of the embedding game is called and may throw; a call it makes
  back into the SDK is an input that follows.
\<close>

datatype jsval = JNull | JBool bool | JNum int | JStr string
  | JArr "jsval list" | JObj "(string \<times> jsval) list"

type_synonym jsobj = "string \<rightharpoonup> jsval"

record player =
  pl_id :: string
  pl_username :: string
  pl_data :: jsobj

record lobby =
  lobbyId :: string
  lobbyName :: string
  isPublic :: bool
  ownerId :: "string option"
  maxPlayers :: int

datatype error_val =
    TimedOut
  | SocketError nat
  | ServerError string

datatype event =
    Ready bool
  | Connected "string option"
  | Disconnected
  | Error error_val
  | PlayerJoined string string
  | PlayerLeft string "string option" "string option"
  | PlayerUpdated string "jsobj option"
  | RoomState "player list"
  | Message string string jsval
  | LobbyCreated lobby string
  | LobbyJoined string string string "player list"
  | LobbyLeft
  | LobbyKicked "string option"
  | LobbyClosed
  | LobbyOwnerChanged string
  | LobbyList "jsval list"

fun event_name :: "event \<Rightarrow> string" where
  "event_name (Ready _) = ''ready''"
| "event_name (Connected _) = ''connected''"
| "event_name Disconnected = ''disconnected''"
| "event_name (Error _) = ''error''"
| "event_name (PlayerJoined _ _) = ''playerJoined''"
| "event_name (PlayerLeft _ _ _) = ''playerLeft''"
| "event_name (PlayerUpdated _ _) = ''playerUpdated''"
| "event_name (RoomState _) = ''roomState''"
| "event_name (Message _ _ _) = ''message''"
| "event_name (LobbyCreated _ _) = ''lobbyCreated''"
| "event_name (LobbyJoined _ _ _ _) = ''lobbyJoined''"
| "event_name LobbyLeft = ''lobbyLeft''"
| "event_name (LobbyKicked _) = ''lobbyKicked''"
| "event_name LobbyClosed = ''lobbyClosed''"
| "event_name (LobbyOwnerChanged _) = ''lobbyOwnerChanged''"
| "event_name (LobbyList _) = ''lobbyList''"

text \<open>
  Inbound wire messages, one constructor per case of the \<open>switch\<close> in \<open>_handleMessage\<close>;
  \<open>Other\<close> is any tag the switch sends to \<open>default\<close>.
\<close>

datatype message =
    Lobby_created string string bool int string
  | Lobby_state string string bool string int "player list option"
  | Lobby_player_joined string string
  | Lobby_player_left string "string option"
  | Lobby_left
  | Lobby_kicked "string option"
  | Lobby_closed
  | Lobby_owner_changed string
  | Lobby_list "jsval list option"
  | State_update string "string option" "jsobj option"
  | Custom string string jsval
  | Player_joined string string
  | Player_left string
  | Room_state "player list option"
  | Error_msg string
  | Other string

text \<open>Outbound frames, as \<open>_send\<close> receives them.\<close>

datatype intent =
    Send_lobby_create "string option" "string option" string int "string option" string
  | Send_lobby_join "string option" string "string option" string
  | Send_lobby_leave
  | Send_lobby_list "string option"
  | Send_lobby_kick string
  | Send_lobby_close
  | Send_join string "string option" "string option" string
  | Send_state_update "string option" jsobj
  | Send_custom "string option" string jsval

text \<open>
  A handler is a function value compared by identity (\<open>off\<close> filters with \<open>!==\<close>).
  \<open>UserFn n t\<close> is the embedding game's n-th function, which throws when called iff
  \<open>t\<close>; the others are the closures the SDK itself subscribes, one set per call of
  \<open>createLobby\<close>, \<open>joinLobby\<close> and \<open>listLobbies\<close> (the number is the call's).
\<close>

datatype handler =
    UserFn nat bool
  | OnCreated nat
  | OnErrCreate nat
  | OnJoined nat
  | OnErrJoin nat
  | OnList nat

datatype ready_state = CONNECTING | OPEN | CLOSING | CLOSED

text \<open>
  Which callbacks a WebSocket object carries: those \<open>_openWS\<close> sets before the socket
  opens (for the call that awaits it), those its \<open>onopen\<close> installs, or those of
  \<open>connect\<close>.
\<close>

datatype hooks = Opening nat | Opened | Legacy

record socket =
  url :: string
  readyState :: ready_state
  hooks :: hooks
  sent :: "intent list"

datatype timer = OpenTimeout nat nat | ListTimeout nat

text \<open>
  A promise is pending, resolved with a value or rejected with one. The values are the
  payloads the handlers were given (\<open>listLobbies\<close> resolves with the \<open>lobbies\<close> of a
  \<open>LobbyList\<close> payload).
\<close>

datatype outcome = Pending | Resolved event | Rejected event

text \<open>What a call does once \<open>await _openWS(serverUrl)\<close> returns: its own arguments.\<close>

datatype call_kind =
    Create "string option" "string option" string int
  | Join "string option" string
  | List "string option"

text \<open>The \<open>.then(...).catch(...)\<close> chain \<open>_init\<close> hangs on a call's promise.\<close>

datatype reaction = NoReaction | InitChain string "string option" "string option"

text \<open>
  One record per call of \<open>createLobby\<close>, \<open>joinLobby\<close> or \<open>listLobbies\<close>: \<open>opened\<close>
  for the promise of its \<open>_openWS\<close> (\<open>None\<close> while it is unsettled, then whether it
  resolved), \<open>outcome\<close> for the promise the call returned.
\<close>

record call =
  kind :: call_kind
  opened :: "bool option"
  outcome :: outcome
  reaction :: reaction

text \<open>
  Microtasks: the rest of a call after its \<open>await\<close> (with the error when \<open>_openWS\<close>
  rejected), and the chain of \<open>_init\<close> on a settled promise.
\<close>

datatype task = Continue nat "event option" | React nat

datatype log = HandlerError nat | ServerWarning string | FallbackWarning event

record state =
  ws :: "nat option"
  connected :: bool
  playerId :: "string option"
  username :: string
  gameId :: "string option"
  roomId :: "string option"
  players :: "(string \<times> player) list"
  lobbyInfo :: "nat option"
  isHost :: bool
  handlers :: "string \<rightharpoonup> handler list"
  objs :: "lobby list"
  sockets :: "socket list"
  timers :: "(nat \<times> timer) list"
  calls :: "call list"
  microtasks :: "task list"
  invoked :: "(handler \<times> event) list"
  console :: "log list"
  returned :: "nat list"
  lorlServerUrl :: "string option"
  lorlGameId :: "string option"
  inherited :: "string \<rightharpoonup> jsobj"
  plain :: bool

definition initial :: state where
  "initial = \<lparr> ws = None, connected = False, playerId = None, username = ''Player'',
     gameId = None, roomId = None, players = [], lobbyInfo = None, isHost = False,
     handlers = Map.empty, objs = [], sockets = [], timers = [], calls = [],
     microtasks = [], invoked = [], console = [], returned = [],
     lorlServerUrl = None, lorlGameId = None, inherited = Map.empty, plain = True \<rparr>"

text \<open>\<open>x || d\<close> on an optional string: the default for \<open>undefined\<close> and for \<open>''\<close>.\<close>

definition or_else :: "string option \<Rightarrow> string \<Rightarrow> string" where
  "or_else x d = (case x of None \<Rightarrow> d | Some v \<Rightarrow> if v = [] then d else v)"

section \<open>Promises of the asynchronous calls\<close>

text \<open>
  \<open>resolve\<close> and \<open>reject\<close> settle a promise once; later calls do nothing. A settled
  promise with a chain on it queues the chain as a microtask.
\<close>

fun pending :: "outcome \<Rightarrow> bool" where
  "pending Pending = True"
| "pending (Resolved v) = False"
| "pending (Rejected v) = False"

definition settle :: "nat \<Rightarrow> outcome \<Rightarrow> state \<Rightarrow> state" where
  "settle c out s =
     (if c < length (calls s) \<and> pending (outcome (calls s ! c)) then
        s\<lparr> calls := (calls s)[c := (calls s ! c)\<lparr> outcome := out \<rparr>],
           microtasks := microtasks s @
             (if reaction (calls s ! c) = NoReaction then [] else [React c]) \<rparr>
      else s)"

section \<open>Event emitter\<close>

definition handlers_for :: "string \<Rightarrow> state \<Rightarrow> handler list" where
  "handlers_for e s = (case handlers s e of None \<Rightarrow> [] | Some hs \<Rightarrow> hs)"

definition on :: "string \<Rightarrow> handler \<Rightarrow> state \<Rightarrow> state" where
  "on e h s = s\<lparr> handlers := (handlers s)(e \<mapsto> handlers_for e s @ [h]) \<rparr>"

definition off :: "string \<Rightarrow> handler \<Rightarrow> state \<Rightarrow> state" where
  "off e h s =
     (case handlers s e of
        None \<Rightarrow> s
      | Some hs \<Rightarrow> s\<lparr> handlers := (handlers s)(e \<mapsto> filter (\<lambda>x. x \<noteq> h) hs) \<rparr>)"

text \<open>
  Calling a handler: the call is recorded, and the result is the state after it and the
  exception it threw, if any. The SDK's own closures unsubscribe their pair and settle
  their promise; \<open>onList\<close> destructures \<open>lobbies\<close> out of the payload.
\<close>

fun call_handler :: "handler \<Rightarrow> event \<Rightarrow> state \<Rightarrow> state \<times> log option" where
  "call_handler (UserFn n t) ev s =
     (s\<lparr> invoked := invoked s @ [(UserFn n t, ev)] \<rparr>,
      if t then Some (HandlerError n) else None)"
| "call_handler (OnCreated c) ev s =
     (settle c (Resolved ev)
        (off ''error'' (OnErrCreate c) (off ''lobbyCreated'' (OnCreated c)
          (s\<lparr> invoked := invoked s @ [(OnCreated c, ev)] \<rparr>))), None)"
| "call_handler (OnErrCreate c) ev s =
     (settle c (Rejected ev)
        (off ''error'' (OnErrCreate c) (off ''lobbyCreated'' (OnCreated c)
          (s\<lparr> invoked := invoked s @ [(OnErrCreate c, ev)] \<rparr>))), None)"
| "call_handler (OnJoined c) ev s =
     (settle c (Resolved ev)
        (off ''error'' (OnErrJoin c) (off ''lobbyJoined'' (OnJoined c)
          (s\<lparr> invoked := invoked s @ [(OnJoined c, ev)] \<rparr>))), None)"
| "call_handler (OnErrJoin c) ev s =
     (settle c (Rejected ev)
        (off ''error'' (OnErrJoin c) (off ''lobbyJoined'' (OnJoined c)
          (s\<lparr> invoked := invoked s @ [(OnErrJoin c, ev)] \<rparr>))), None)"
| "call_handler (OnList c) ev s =
     (settle c (Resolved ev)
        (off ''lobbyList'' (OnList c)
          (s\<lparr> invoked := invoked s @ [(OnList c, ev)] \<rparr>)), None)"

text \<open>
  \<open>Array.prototype.forEach\<close>: the callback runs on each element of the array as it was
  when the loop began, and an exception leaving the callback ends the loop.
\<close>

fun forEach :: "('a \<Rightarrow> state \<Rightarrow> state \<times> log option) \<Rightarrow> 'a list \<Rightarrow> state \<Rightarrow> state \<times> log option" where
  "forEach f [] s = (s, None)"
| "forEach f (x # xs) s =
     (case f x s of
        (s', Some e) \<Rightarrow> (s', Some e)
      | (s', None) \<Rightarrow> forEach f xs s')"

text \<open>The arrow function of \<open>emit\<close>: \<open>try { fn(data) } catch (e) { console.error(...) }\<close>.\<close>

definition guarded :: "event \<Rightarrow> handler \<Rightarrow> state \<Rightarrow> state \<times> log option" where
  "guarded ev fn s =
     (case call_handler fn ev s of
        (s', Some e) \<Rightarrow> (s'\<lparr> console := console s' @ [e] \<rparr>, None)
      | (s', None) \<Rightarrow> (s', None))"

definition emit_try :: "event \<Rightarrow> state \<Rightarrow> state \<times> log option" where
  "emit_try ev s = forEach (guarded ev) (handlers_for (event_name ev) s) s"

text \<open>
  \<open>emit\<close> as its callers use it: they go on with the state it leaves. That no exception
  is lost by this is theorem \<open>emit_isolates_handlers\<close>.
\<close>

definition emit :: "event \<Rightarrow> state \<Rightarrow> state" where
  "emit ev s = fst (emit_try ev s)"

section \<open>Sockets\<close>

text \<open>
  \<open>_ws && _ws.readyState === WebSocket.OPEN\<close>. A reference is an index into \<open>sockets\<close>;
  the objects are never removed, so a reference the SDK holds is in range.
\<close>

definition ws_open :: "state \<Rightarrow> bool" where
  "ws_open s =
     (case ws s of
        None \<Rightarrow> False
      | Some i \<Rightarrow> i < length (sockets s) \<and> readyState (sockets s ! i) = OPEN)"

definition send :: "intent \<Rightarrow> state \<Rightarrow> state" where
  "send m s =
     (case ws s of
        None \<Rightarrow> s
      | Some i \<Rightarrow>
          if i < length (sockets s) \<and> readyState (sockets s ! i) = OPEN
          then s\<lparr> sockets := (sockets s)[i := (sockets s ! i)\<lparr> sent := sent (sockets s ! i) @ [m] \<rparr>] \<rparr>
          else s)"

text \<open>
  \<open>WebSocket.close()\<close>: a connecting or open socket starts closing (its close event
  comes later, as an input); on a closing or closed socket the call does nothing.
\<close>

definition close_socket :: "nat \<Rightarrow> state \<Rightarrow> state" where
  "close_socket i s =
     (if i < length (sockets s) \<and>
         (readyState (sockets s ! i) = CONNECTING \<or> readyState (sockets s ! i) = OPEN)
      then s\<lparr> sockets := (sockets s)[i := (sockets s ! i)\<lparr> readyState := CLOSING \<rparr>] \<rparr>
      else s)"

definition new_socket :: "string \<Rightarrow> hooks \<Rightarrow> state \<Rightarrow> state" where
  "new_socket serverUrl h s =
     s\<lparr> sockets := sockets s @
          [\<lparr> url = serverUrl, readyState = CONNECTING, hooks = h, sent = [] \<rparr>] \<rparr>"

definition open_sockets :: "state \<Rightarrow> nat list" where
  "open_sockets s = filter (\<lambda>i. readyState (sockets s ! i) = OPEN) [0 ..< length (sockets s)]"

text \<open>Settling the promise of \<open>_openWS\<close> resumes the call that awaits it, once.\<close>

definition settle_open :: "nat \<Rightarrow> event option \<Rightarrow> state \<Rightarrow> state" where
  "settle_open c r s =
     (if c < length (calls s) \<and> opened (calls s ! c) = None then
        s\<lparr> calls := (calls s)[c := (calls s ! c)
                \<lparr> opened := Some (case r of None \<Rightarrow> True | Some e \<Rightarrow> False) \<rparr>],
           microtasks := microtasks s @ [Continue c r] \<rparr>
      else s)"

text \<open>
  \<open>_openWS(serverUrl)\<close>, called by call \<open>c\<close>. The new socket is assigned to \<open>_ws\<close> only
  by its \<open>onopen\<close>.
\<close>

definition openWS :: "string \<Rightarrow> nat \<Rightarrow> state \<Rightarrow> state" where
  "openWS serverUrl c s =
     (if ws_open s then settle_open c None s
      else
        let s1 = (case ws s of None \<Rightarrow> s | Some i \<Rightarrow> (close_socket i s)\<lparr> ws := None \<rparr>);
            i = length (sockets s1)
        in (new_socket serverUrl (Opening c) s1)\<lparr> timers := timers s1 @ [(8000, OpenTimeout i c)] \<rparr>)"

section \<open>Message dispatcher\<close>

definition spread :: "jsobj option \<Rightarrow> jsobj" where
  "spread d = (case d of None \<Rightarrow> Map.empty | Some m \<Rightarrow> m)"

text \<open>
  The names of the members of \<open>Object.prototype\<close>: what a lookup in an object literal
  finds besides the properties of the object itself. Each is a function, but for
  \<open>__proto__\<close>, which reads as \<open>Object.prototype\<close> and, assigned to, replaces the
  prototype of the object.
\<close>

definition proto_members :: "string list" where
  "proto_members =
     [''constructor'', ''__defineGetter__'', ''__defineSetter__'', ''hasOwnProperty'',
      ''__lookupGetter__'', ''__lookupSetter__'', ''isPrototypeOf'', ''propertyIsEnumerable'',
      ''toString'', ''valueOf'', ''__proto__'', ''toLocaleString'']"

text \<open>\<open>_players[k] = p\<close>: a property of the table, unless \<open>k\<close> is \<open>__proto__\<close>.\<close>

definition set_player :: "string \<Rightarrow> player \<Rightarrow> state \<Rightarrow> state" where
  "set_player k p s =
     (if k = ''__proto__'' then s\<lparr> plain := False \<rparr>
      else s\<lparr> players := AList.update k p (players s) \<rparr>)"

text \<open>
  \<open>_players = {}; (msg.players || []).forEach(p => { _players[p.id] = p; })\<close>: the
  entries of the new table, and whether one of the assignments was to \<open>__proto__\<close>.
\<close>

definition index_players :: "player list option \<Rightarrow> (string \<times> player) list" where
  "index_players ps =
     fold (\<lambda>p acc. if pl_id p = ''__proto__'' then acc else AList.update (pl_id p) p acc)
       (case ps of None \<Rightarrow> [] | Some l \<Rightarrow> l) []"

definition sets_proto :: "player list option \<Rightarrow> bool" where
  "sets_proto ps = list_ex (\<lambda>p. pl_id p = ''__proto__'') (case ps of None \<Rightarrow> [] | Some l \<Rightarrow> l)"

text \<open>The \<open>data\<close> property of the member of \<open>Object.prototype\<close> with the name \<open>k\<close>.\<close>

definition inherited_data :: "string \<Rightarrow> state \<Rightarrow> jsobj" where
  "inherited_data k s = (case inherited s k of None \<Rightarrow> Map.empty | Some m \<Rightarrow> m)"

definition alloc :: "lobby \<Rightarrow> state \<Rightarrow> state" where
  "alloc ob s = s\<lparr> objs := objs s @ [ob] \<rparr>"

fun handleMessage :: "message \<Rightarrow> state \<Rightarrow> state" where
  "handleMessage (Lobby_created lid lname pub maxp pid) s =
     (let ob = \<lparr> lobbyId = lid, lobbyName = lname, isPublic = pub, ownerId = None,
                 maxPlayers = maxp \<rparr>
      in emit (LobbyCreated ob pid)
           ((alloc ob s)\<lparr> lobbyInfo := Some (length (objs s)), isHost := True \<rparr>))"
| "handleMessage (Lobby_state lid lname pub owner maxp ps) s =
     (let ob = \<lparr> lobbyId = lid, lobbyName = lname, isPublic = pub, ownerId = Some owner,
                 maxPlayers = maxp \<rparr>
      in emit (LobbyJoined lid lname owner (map snd (index_players ps)))
           ((alloc ob s)\<lparr> players := index_players ps, lobbyInfo := Some (length (objs s)),
              isHost := (Some owner = playerId s), plain := plain s \<and> \<not> sets_proto ps \<rparr>))"
| "handleMessage (Lobby_player_joined pid uname) s =
     emit (PlayerJoined pid uname)
       (set_player pid \<lparr> pl_id = pid, pl_username = uname, pl_data = Map.empty \<rparr> s)"
| "handleMessage (Lobby_player_left pid reason) s =
     emit (PlayerLeft pid (map_option pl_username (map_of (players s) pid)) reason)
       (s\<lparr> players := AList.delete pid (players s) \<rparr>)"
| "handleMessage Lobby_left s =
     emit LobbyLeft (s\<lparr> lobbyInfo := None, isHost := False, players := [] \<rparr>)"
| "handleMessage (Lobby_kicked reason) s =
     emit (LobbyKicked reason) (s\<lparr> lobbyInfo := None, isHost := False, players := [] \<rparr>)"
| "handleMessage Lobby_closed s =
     emit LobbyClosed (s\<lparr> lobbyInfo := None, isHost := False, players := [] \<rparr>)"
| "handleMessage (Lobby_owner_changed newOwnerId) s =
     emit (LobbyOwnerChanged newOwnerId)
       ((case lobbyInfo s of
           None \<Rightarrow> s
         | Some a \<Rightarrow> s\<lparr> objs := (objs s)[a := (objs s ! a)\<lparr> ownerId := Some newOwnerId \<rparr>] \<rparr>)
        \<lparr> isHost := (Some newOwnerId = playerId s) \<rparr>)"
| "handleMessage (Lobby_list lobbies) s =
     emit (LobbyList (case lobbies of None \<Rightarrow> [] | Some l \<Rightarrow> l)) s"
| "handleMessage (State_update pid uname d) s =
     emit (PlayerUpdated pid d)
       (case map_of (players s) pid of
          Some p \<Rightarrow>
            s\<lparr> players := AList.update pid (p\<lparr> pl_data := pl_data p ++ spread d \<rparr>) (players s) \<rparr>
        | None \<Rightarrow>
            if pid \<in> set proto_members
            then s\<lparr> inherited := (inherited s)(pid \<mapsto> inherited_data pid s ++ spread d),
                    plain := plain s \<and> pid \<noteq> ''__proto__'' \<rparr>
            else set_player pid
                   \<lparr> pl_id = pid, pl_username = or_else uname ''Player'', pl_data = spread d \<rparr> s)"
| "handleMessage (Custom pid ev d) s = emit (Message pid ev d) s"
| "handleMessage (Player_joined pid uname) s =
     emit (PlayerJoined pid uname)
       (set_player pid \<lparr> pl_id = pid, pl_username = uname, pl_data = Map.empty \<rparr> s)"
| "handleMessage (Player_left pid) s =
     emit (PlayerLeft pid (map_option pl_username (map_of (players s) pid)) None)
       (s\<lparr> players := AList.delete pid (players s) \<rparr>)"
| "handleMessage (Room_state ps) s =
     emit (RoomState (map snd (index_players ps)))
       (s\<lparr> players := index_players ps, plain := plain s \<and> \<not> sets_proto ps \<rparr>)"
| "handleMessage (Error_msg m) s =
     emit (Error (ServerError m)) (s\<lparr> console := console s @ [ServerWarning m] \<rparr>)"
| "handleMessage (Other tag) s = s"

section \<open>Lobby API\<close>

text \<open>
  \<open>_playerId || ('p_' + Math.random().toString(36).slice(2, 9))\<close>: \<open>rnd\<close> is the text
  the right operand would yield; it is evaluated only when there is no player id yet.
\<close>

definition assign_playerId :: "string \<Rightarrow> state \<Rightarrow> state" where
  "assign_playerId rnd s =
     s\<lparr> playerId := Some (case playerId s of Some p \<Rightarrow> p | None \<Rightarrow> ''p_'' @ rnd) \<rparr>"

definition new_call :: "call_kind \<Rightarrow> state \<Rightarrow> state" where
  "new_call k s =
     s\<lparr> calls := calls s @
          [\<lparr> kind = k, opened = None, outcome = Pending, reaction = NoReaction \<rparr>] \<rparr>"

text \<open>
  The three asynchronous functions up to their \<open>await\<close>. The promise each returns is call
  number \<open>length (calls s)\<close>. The default parameter values apply to \<open>undefined\<close> only.
\<close>

definition createLobby ::
  "string \<Rightarrow> string \<Rightarrow> string option \<Rightarrow> string option \<Rightarrow> string option \<Rightarrow> int option \<Rightarrow>
   string option \<Rightarrow> state \<Rightarrow> state" where
  "createLobby rnd serverUrl gid lid lname maxp uname s =
     (let s1 = (assign_playerId rnd s)\<lparr> username := or_else uname (username s), gameId := gid \<rparr>
      in openWS serverUrl (length (calls s1))
           (new_call (Create gid lid (case lname of None \<Rightarrow> ''My Lobby'' | Some n \<Rightarrow> n)
                        (case maxp of None \<Rightarrow> 8 | Some m \<Rightarrow> m)) s1))"

definition joinLobby ::
  "string \<Rightarrow> string \<Rightarrow> string option \<Rightarrow> string \<Rightarrow> string option \<Rightarrow> state \<Rightarrow> state" where
  "joinLobby rnd serverUrl gid lid uname s =
     (let s1 = (assign_playerId rnd s)\<lparr> username := or_else uname (username s), gameId := gid \<rparr>
      in openWS serverUrl (length (calls s1)) (new_call (Join gid lid) s1))"

definition listLobbies :: "string \<Rightarrow> string option \<Rightarrow> state \<Rightarrow> state" where
  "listLobbies serverUrl gid s = openWS serverUrl (length (calls s)) (new_call (List gid) s)"

text \<open>
  The rest of each function, run as a microtask when the promise of \<open>_openWS\<close> settles.
  When it rejected, the \<open>await\<close> throws and the promise of the call rejects with the
  same error.
\<close>

fun continue_call :: "nat \<Rightarrow> call_kind \<Rightarrow> state \<Rightarrow> state" where
  "continue_call c (Create gid lid lname maxp) s =
     (let s1 = on ''error'' (OnErrCreate c) (on ''lobbyCreated'' (OnCreated c)
                 (emit (Connected (playerId s)) s))
      in send (Send_lobby_create gid
                 (case lid of None \<Rightarrow> None | Some l \<Rightarrow> if l = [] then None else Some l)
                 lname maxp (playerId s1) (username s1)) s1)"
| "continue_call c (Join gid lid) s =
     (let s1 = on ''error'' (OnErrJoin c) (on ''lobbyJoined'' (OnJoined c)
                 (emit (Connected (playerId s)) s))
      in send (Send_lobby_join gid lid (playerId s1) (username s1)) s1)"
| "continue_call c (List gid) s =
     (let s1 = send (Send_lobby_list gid) (on ''lobbyList'' (OnList c) s)
      in s1\<lparr> timers := timers s1 @ [(5000, ListTimeout c)] \<rparr>)"

definition leaveLobby :: "state \<Rightarrow> state" where
  "leaveLobby s = (send Send_lobby_leave s)\<lparr> lobbyInfo := None, isHost := False, players := [] \<rparr>"

definition kickFromLobby :: "string \<Rightarrow> state \<Rightarrow> state" where
  "kickFromLobby targetPlayerId s = send (Send_lobby_kick targetPlayerId) s"

definition closeLobby :: "state \<Rightarrow> state" where
  "closeLobby s = send Send_lobby_close s"

text \<open>
  \<open>getLobbyInfo\<close>: \<open>null\<close>, or a new object with the properties of \<open>_lobbyInfo\<close>
  (\<open>{ ..._lobbyInfo }\<close>). The result is the reference returned and the state after.
\<close>

definition getLobbyInfo :: "state \<Rightarrow> nat option \<times> state" where
  "getLobbyInfo s =
     (case lobbyInfo s of
        None \<Rightarrow> (None, s)
      | Some a \<Rightarrow>
          (Some (length (objs s)),
           (alloc (objs s ! a) s)\<lparr> returned := returned s @ [length (objs s)] \<rparr>))"

text \<open>
  The embedding game writing to an object it holds: any change of its properties.
  It holds only what \<open>getLobbyInfo\<close> returned.
\<close>

definition mutate :: "nat \<Rightarrow> (lobby \<Rightarrow> lobby) \<Rightarrow> state \<Rightarrow> state" where
  "mutate r f s =
     (if r \<in> set (returned s) \<and> r < length (objs s)
      then s\<lparr> objs := (objs s)[r := f (objs s ! r)] \<rparr> else s)"

section \<open>Legacy room API\<close>

definition connect :: "string \<Rightarrow> string \<Rightarrow> string option \<Rightarrow> string option \<Rightarrow> state \<Rightarrow> state" where
  "connect rnd serverUrl rid uname s =
     (let s1 = (assign_playerId rnd s)\<lparr> username := or_else uname (username s), roomId := rid \<rparr>
      in (new_socket serverUrl Legacy s1)\<lparr> ws := Some (length (sockets s1)) \<rparr>)"

definition disconnect :: "state \<Rightarrow> state" where
  "disconnect s =
     (case ws s of None \<Rightarrow> s | Some i \<Rightarrow> (close_socket i s)\<lparr> ws := None \<rparr>)
     \<lparr> connected := False, lobbyInfo := None, isHost := False \<rparr>"

definition updateState :: "jsobj \<Rightarrow> state \<Rightarrow> state" where
  "updateState d s = send (Send_state_update (playerId s) d) s"

definition sendMessage :: "string \<Rightarrow> jsval \<Rightarrow> state \<Rightarrow> state" where
  "sendMessage ev d s = send (Send_custom (playerId s) ev d) s"

definition getPlayers :: "state \<Rightarrow> player list" where
  "getPlayers s = map snd (players s)"


section \<open>Platform init hook\<close>

datatype lobby_ctx = CtxCreate "string option" "int option" | CtxJoin string

definition chain :: "nat \<Rightarrow> reaction \<Rightarrow> state \<Rightarrow> state" where
  "chain c r s =
     (if c < length (calls s)
      then s\<lparr> calls := (calls s)[c := (calls s ! c)\<lparr> reaction := r \<rparr>] \<rparr> else s)"

text \<open>
  \<open>_init\<close> in two parts: the assignments and the \<open>if (!serverUrl)\<close> branch, and
  (\<open>init_online\<close>) the rest of the function, where there is a server URL.
\<close>

definition init_online ::
  "string \<Rightarrow> string \<Rightarrow> string option \<Rightarrow> string option \<Rightarrow> lobby_ctx option \<Rightarrow> state \<Rightarrow> state" where
  "init_online rnd u rid uname lobbyCtx s =
     (case lobbyCtx of
        Some (CtxCreate lname maxp) \<Rightarrow>
          chain (length (calls s)) (InitChain u rid uname)
            (createLobby rnd u (gameId s) None (Some (or_else lname ''My Lobby''))
               (Some (case maxp of None \<Rightarrow> 8 | Some m \<Rightarrow> if m = 0 then 8 else m))
               uname s)
      | Some (CtxJoin lid) \<Rightarrow>
          if lid = [] then emit (Ready True) (connect rnd u rid uname s)
          else chain (length (calls s)) (InitChain u rid uname)
                 (joinLobby rnd u (gameId s) lid uname s)
      | None \<Rightarrow> emit (Ready True) (connect rnd u rid uname s))"

definition init ::
  "string \<Rightarrow> string option \<Rightarrow> string option \<Rightarrow> string option \<Rightarrow> string option \<Rightarrow>
   lobby_ctx option \<Rightarrow> state \<Rightarrow> state" where
  "init rnd serverUrl rid uname gid lobbyCtx s =
     (let s1 = s\<lparr> gameId := Some (or_else gid ''unknown''),
                  username := or_else uname ''Player'',
                  lorlServerUrl := (if or_else serverUrl [] = [] then None else serverUrl),
                  lorlGameId := Some (or_else gid ''unknown'') \<rparr>
      in if or_else serverUrl [] = [] then emit (Ready False) s1
         else init_online rnd (or_else serverUrl []) rid uname lobbyCtx s1)"

text \<open>
  The chain of \<open>_init\<close> on a settled promise: \<open>then\<close> publishes \<open>ready\<close>; \<open>catch\<close> warns,
  connects to the legacy room and publishes \<open>ready\<close>.
\<close>

fun react :: "string \<Rightarrow> reaction \<Rightarrow> outcome \<Rightarrow> state \<Rightarrow> state" where
  "react rnd (InitChain u rid uname) (Resolved v) s = emit (Ready True) s"
| "react rnd (InitChain u rid uname) (Rejected err) s =
     emit (Ready True) (connect rnd u rid uname (s\<lparr> console := console s @ [FallbackWarning err] \<rparr>))"
| "react rnd r out s = s"

section \<open>Microtasks and inputs\<close>

fun run_task :: "string \<Rightarrow> task \<Rightarrow> state \<Rightarrow> state" where
  "run_task rnd (Continue c None) s =
     (if c < length (calls s) then continue_call c (kind (calls s ! c)) s else s)"
| "run_task rnd (Continue c (Some err)) s = settle c (Rejected err) s"
| "run_task rnd (React c) s =
     (if c < length (calls s) then react rnd (reaction (calls s ! c)) (outcome (calls s ! c)) s
      else s)"

text \<open>
  The queue is emptied after every callback. \<open>work\<close> bounds the number of microtasks
  that can still run: each is queued by a promise that settles, once.
\<close>

fun drain :: "nat \<Rightarrow> string \<Rightarrow> state \<Rightarrow> state" where
  "drain 0 rnd s = s"
| "drain (Suc n) rnd s =
     (case microtasks s of
        [] \<Rightarrow> s
      | t # ts \<Rightarrow> drain n rnd (run_task rnd t (s\<lparr> microtasks := ts \<rparr>)))"

definition work :: "state \<Rightarrow> nat" where
  "work s = length (filter (\<lambda>c. opened c = None) (calls s))
          + length (filter (\<lambda>c. pending (outcome c)) (calls s))
          + length (microtasks s)"

text \<open>The callbacks of a socket, by the hooks it carries.\<close>

datatype frame = Malformed | Parsed message

definition clearTimeout :: "nat \<times> timer \<Rightarrow> state \<Rightarrow> state" where
  "clearTimeout t s = s\<lparr> timers := filter (\<lambda>x. x \<noteq> t) (timers s) \<rparr>"

definition set_ready :: "nat \<Rightarrow> ready_state \<Rightarrow> state \<Rightarrow> state" where
  "set_ready i r s = s\<lparr> sockets := (sockets s)[i := (sockets s ! i)\<lparr> readyState := r \<rparr>] \<rparr>"

definition set_hooks :: "nat \<Rightarrow> hooks \<Rightarrow> state \<Rightarrow> state" where
  "set_hooks i h s = s\<lparr> sockets := (sockets s)[i := (sockets s ! i)\<lparr> hooks := h \<rparr>] \<rparr>"

fun onopen :: "nat \<Rightarrow> hooks \<Rightarrow> state \<Rightarrow> state" where
  "onopen i (Opening c) s =
     settle_open c None
       ((set_hooks i Opened (clearTimeout (8000, OpenTimeout i c) s))
          \<lparr> ws := Some i, connected := True \<rparr>)"
| "onopen i Opened s = s"
| "onopen i Legacy s =
     (let s1 = s\<lparr> connected := True \<rparr>
      in emit (Connected (playerId s1))
           (send (Send_join (or_else (gameId s1) ''unknown'') (roomId s1) (playerId s1)
                    (username s1)) s1))"

fun onmessage :: "hooks \<Rightarrow> frame \<Rightarrow> state \<Rightarrow> state" where
  "onmessage (Opening c) f s = s"
| "onmessage h Malformed s = s"
| "onmessage h (Parsed msg) s = handleMessage msg s"

fun onclose :: "hooks \<Rightarrow> state \<Rightarrow> state" where
  "onclose (Opening c) s = s"
| "onclose Opened s =
     emit Disconnected (s\<lparr> connected := False, lobbyInfo := None, isHost := False \<rparr>)"
| "onclose Legacy s = emit Disconnected (s\<lparr> connected := False \<rparr>)"

fun onerror :: "nat \<Rightarrow> hooks \<Rightarrow> state \<Rightarrow> state" where
  "onerror i (Opening c) s =
     settle_open c (Some (Error (SocketError i))) (clearTimeout (8000, OpenTimeout i c) s)"
| "onerror i h s = emit (Error (SocketError i)) s"

fun fire :: "timer \<Rightarrow> state \<Rightarrow> state" where
  "fire (OpenTimeout i c) s = settle_open c (Some (Error TimedOut)) (close_socket i s)"
| "fire (ListTimeout c) s = settle c (Resolved (LobbyList [])) (off ''lobbyList'' (OnList c) s)"

text \<open>
  Everything that makes the SDK run: a call by the embedding page, a write by the page
  to an object \<open>getLobbyInfo\<close> gave it, an event of a socket, a timer that expires. An
  open event comes to a connecting socket and a message to an open one; the browser has
  closed the socket when it reports an error, and a close event may follow. A socket
  event that the state of the socket rules out, and a timer that is not set, leave the
  state as it is. The page calling \<open>on\<close> or \<open>off\<close> with the name of a member of
  \<open>Object.prototype\<close> gets a \<open>TypeError\<close> (what \<open>_handlers[event]\<close> finds has no \<open>push\<close>
  and no \<open>filter\<close>), and nothing changes.
\<close>

datatype input =
    CallOn string nat bool
  | CallOff string nat bool
  | CallCreateLobby string "string option" "string option" "string option" "int option" "string option"
  | CallJoinLobby string "string option" string "string option"
  | CallLeaveLobby
  | CallListLobbies string "string option"
  | CallKickFromLobby string
  | CallCloseLobby
  | CallGetLobbyInfo
  | CallConnect string "string option" "string option"
  | CallDisconnect
  | CallUpdateState jsobj
  | CallSendMessage string jsval
  | CallInit "string option" "string option" "string option" "string option" "lobby_ctx option"
  | Write nat "lobby \<Rightarrow> lobby"
  | SockOpen nat
  | SockMessage nat frame
  | SockError nat
  | SockClose nat
  | Timeout nat timer

fun run :: "string \<Rightarrow> input \<Rightarrow> state \<Rightarrow> state" where
  "run rnd (CallOn e n t) s = (if e \<in> set proto_members then s else on e (UserFn n t) s)"
| "run rnd (CallOff e n t) s = (if e \<in> set proto_members then s else off e (UserFn n t) s)"
| "run rnd (CallCreateLobby u gid lid lname maxp uname) s = createLobby rnd u gid lid lname maxp uname s"
| "run rnd (CallJoinLobby u gid lid uname) s = joinLobby rnd u gid lid uname s"
| "run rnd CallLeaveLobby s = leaveLobby s"
| "run rnd (CallListLobbies u gid) s = listLobbies u gid s"
| "run rnd (CallKickFromLobby p) s = kickFromLobby p s"
| "run rnd CallCloseLobby s = closeLobby s"
| "run rnd CallGetLobbyInfo s = snd (getLobbyInfo s)"
| "run rnd (CallConnect u rid uname) s = connect rnd u rid uname s"
| "run rnd CallDisconnect s = disconnect s"
| "run rnd (CallUpdateState d) s = updateState d s"
| "run rnd (CallSendMessage ev d) s = sendMessage ev d s"
| "run rnd (CallInit u rid uname gid ctx) s = init rnd u rid uname gid ctx s"
| "run rnd (Write r f) s = mutate r f s"
| "run rnd (SockOpen i) s =
     (if i < length (sockets s) \<and> readyState (sockets s ! i) = CONNECTING
      then onopen i (hooks (sockets s ! i)) (set_ready i OPEN s) else s)"
| "run rnd (SockMessage i f) s =
     (if i < length (sockets s) \<and> readyState (sockets s ! i) = OPEN
      then onmessage (hooks (sockets s ! i)) f s else s)"
| "run rnd (SockError i) s =
     (if i < length (sockets s) \<and> readyState (sockets s ! i) \<noteq> CLOSED
      then onerror i (hooks (sockets s ! i)) (set_ready i CLOSED s) else s)"
| "run rnd (SockClose i) s =
     (if i < length (sockets s)
      then onclose (hooks (sockets s ! i)) (set_ready i CLOSED s) else s)"
| "run rnd (Timeout d t) s =
     (if (d, t) \<in> set (timers s) then fire t (clearTimeout (d, t) s) else s)"

definition dispatch :: "string \<Rightarrow> input \<Rightarrow> state \<Rightarrow> state" where
  "dispatch rnd inp s = (let s1 = run rnd inp s in drain (work s1) rnd s1)"

fun dispatch_all :: "string \<Rightarrow> input list \<Rightarrow> state \<Rightarrow> state" where
  "dispatch_all rnd [] s = s"
| "dispatch_all rnd (inp # inps) s = dispatch_all rnd inps (dispatch rnd inp s)"

section \<open>Notions of the specification and invariants\<close>

text \<open>What \<open>console.error\<close> receives when the handlers of a list are called in turn.\<close>

fun thrown :: "handler list \<Rightarrow> log list" where
  "thrown [] = []"
| "thrown (UserFn n t # hs) = (if t then [HandlerError n] else []) @ thrown hs"
| "thrown (h # hs) = thrown hs"


fun is_List :: "call_kind \<Rightarrow> bool" where
  "is_List (List gid) = True"
| "is_List k = False"



fun rejected :: "outcome \<Rightarrow> bool" where
  "rejected (Rejected v) = True"
| "rejected out = False"


text \<open>The call whose promise a closure rejects.\<close>

fun rejects :: "handler \<Rightarrow> nat option" where
  "rejects (OnErrCreate c) = Some c"
| "rejects (OnErrJoin c) = Some c"
| "rejects h = None"

text \<open>The call whose promise a closure of the SDK settles.\<close>

fun target :: "handler \<Rightarrow> nat option" where
  "target (UserFn n t) = None"
| "target (OnCreated c) = Some c"
| "target (OnErrCreate c) = Some c"
| "target (OnJoined c) = Some c"
| "target (OnErrJoin c) = Some c"
| "target (OnList c) = Some c"

text \<open>The call whose promise a closure resolves, and the event a call subscribes it to.\<close>

fun resolves :: "handler \<Rightarrow> nat option" where
  "resolves (OnCreated c) = Some c"
| "resolves (OnJoined c) = Some c"
| "resolves (OnList c) = Some c"
| "resolves h = None"

fun resolving_event :: "call_kind \<Rightarrow> string" where
  "resolving_event (Create gid lid lname maxp) = ''lobbyCreated''"
| "resolving_event (Join gid lid) = ''lobbyJoined''"
| "resolving_event (List gid) = ''lobbyList''"

fun dispatch_each :: "(string \<times> input) list \<Rightarrow> state \<Rightarrow> state" where
  "dispatch_each [] s = s"
| "dispatch_each ((rnd, inp) # xs) s = dispatch_each xs (dispatch rnd inp s)"

text \<open>
  What holds of the closures, the microtasks and the promises in every state the SDK
  reaches: a closure that rejects belongs to a call of \<open>createLobby\<close> or \<open>joinLobby\<close>; a
  continuation with an error belongs to a call whose \<open>_openWS\<close> rejected; and a call of
  \<open>listLobbies\<close> whose promise is rejected is one whose \<open>_openWS\<close> rejected.
\<close>

definition wired :: "state \<Rightarrow> bool" where
  "wired s \<longleftrightarrow>
     (\<forall>e h c. h \<in> set (handlers_for e s) \<longrightarrow> rejects h = Some c \<longrightarrow>
        c < length (calls s) \<and> \<not> is_List (kind (calls s ! c))) \<and>
     (\<forall>c e. Continue c (Some e) \<in> set (microtasks s) \<longrightarrow>
        c < length (calls s) \<and> opened (calls s ! c) = Some False) \<and>
     (\<forall>c. c < length (calls s) \<longrightarrow> is_List (kind (calls s ! c)) \<longrightarrow>
        rejected (outcome (calls s ! c)) \<longrightarrow> opened (calls s ! c) = Some False)"

text \<open>
  A closure that resolves is subscribed to the event of its call, and only a call of
  \<open>listLobbies\<close> has a timer that resolves it.
\<close>

definition matched :: "state \<Rightarrow> bool" where
  "matched s \<longleftrightarrow>
     (\<forall>e h c. h \<in> set (handlers_for e s) \<longrightarrow> resolves h = Some c \<longrightarrow>
        c < length (calls s) \<and> e = resolving_event (kind (calls s ! c))) \<and>
     (\<forall>d c. (d, ListTimeout c) \<in> set (timers s) \<longrightarrow>
        c < length (calls s) \<and> is_List (kind (calls s ! c)))"

text \<open>
  The chain \<open>r\<close> on the promise of call \<open>c\<close> is still to run: the promise is pending, or
  the chain is in the queue of microtasks.
\<close>

definition chain_due :: "nat \<Rightarrow> reaction \<Rightarrow> state \<Rightarrow> bool" where
  "chain_due c r s \<longleftrightarrow>
     c < length (calls s) \<and> reaction (calls s ! c) = r \<and>
     (pending (outcome (calls s ! c)) \<or> React c \<in> set (microtasks s))"

text \<open>
  Call \<open>c\<close> still has to go on after \<open>_openWS\<close>: once its connection is open, the rest
  of the call is in the queue of microtasks.
\<close>

definition cont_due :: "nat \<Rightarrow> state \<Rightarrow> bool" where
  "cont_due c s \<longleftrightarrow>
     c < length (calls s) \<and>
     (opened (calls s ! c) = Some True \<longrightarrow> Continue c None \<in> set (microtasks s))"

text \<open>
  The lobby object of \<open>_lobbyInfo\<close> is in the store and is not one of the copies handed
  out; the copies are in the store.
\<close>

definition store_ok :: "state \<Rightarrow> bool" where
  "store_ok s \<longleftrightarrow>
     list_all (\<lambda>r. r < length (objs s)) (returned s) \<and>
     (case lobbyInfo s of
        None \<Rightarrow> True
      | Some a \<Rightarrow> a < length (objs s) \<and> a \<notin> set (returned s))"

text \<open>
  \<open>_isHost\<close> against the owner recorded in \<open>_lobbyInfo\<close>: equal to \<open>ownerId === _playerId\<close>
  when the lobby object has an \<open>ownerId\<close>, and true when it has none.
\<close>

definition host_ok :: "state \<Rightarrow> bool" where
  "host_ok s \<longleftrightarrow>
     (case lobbyInfo s of
        None \<Rightarrow> True
      | Some a \<Rightarrow>
          (case ownerId (objs s ! a) of
             None \<Rightarrow> isHost s
           | Some owner \<Rightarrow> isHost s = (Some owner = playerId s)))"

text \<open>Only \<open>_init\<close> hangs a chain on a promise, after the player id is assigned.\<close>

definition chains_ok :: "state \<Rightarrow> bool" where
  "chains_ok s \<longleftrightarrow>
     (case playerId s of
        None \<Rightarrow> list_all (\<lambda>c. reaction c = NoReaction) (calls s)
      | Some p \<Rightarrow> True)"

text \<open>
  The random text \<open>rnd\<close> would give this session, which has no player id, the id of the
  owner of the lobby it is in.
\<close>

definition collides :: "string \<Rightarrow> state \<Rightarrow> bool" where
  "collides rnd s =
     (case playerId s of
        Some p \<Rightarrow> False
      | None \<Rightarrow>
          (case lobbyInfo s of
             None \<Rightarrow> False
           | Some a \<Rightarrow> ownerId (objs s ! a) = Some (''p_'' @ rnd)))"

fun fresh_steps :: "(string \<times> input) list \<Rightarrow> state \<Rightarrow> bool" where
  "fresh_steps [] s = True"
| "fresh_steps ((rnd, inp) # xs) s = (\<not> collides rnd s \<and> fresh_steps xs (dispatch rnd inp s))"

definition sound :: "state \<Rightarrow> bool" where
  "sound s \<longleftrightarrow> store_ok s \<and> host_ok s \<and> chains_ok s"

text \<open>An input that is a write by the game to the object at \<open>r\<close>.\<close>

fun writes :: "nat \<Rightarrow> input \<Rightarrow> bool" where
  "writes r (Write r' h) = (r' = r)"
| "writes r inp = False"

section \<open>The session server\<close>

text \<open>
  Modelled from the spec: the session server is not among the sources. The
  specification derives \<open>isPublic\<close> from a naming convention: a \<open>lobbyName\<close> prefixed
  with the reserved marker token denotes public listing. The comments of \<open>library.js\<close>
  name the token: a lobby name starting with \<open>PUBLIC_\<close> is publicly listed.
\<close>

definition public_name :: "string \<Rightarrow> bool" where
  "public_name n = (take 7 n = ''PUBLIC_'')"

text \<open>
  Modelled from the spec: the server's answer to a \<open>lobby_create\<close> request, which is
  not among the sources. The protocol table gives \<open>lobby_created\<close> the fields \<open>lobbyId\<close>,
  \<open>lobbyName\<close>, \<open>isPublic\<close>, \<open>maxPlayers\<close> and \<open>playerId\<close>; it confirms the creation
  of the lobby of the request, so it has the name of the request and, by the naming
  convention, its \<open>isPublic\<close>. The lobby id \<open>l\<close>, the size \<open>n\<close> and the player id \<open>p\<close>
  are as the server decides.
\<close>

fun server_lobby_created :: "string \<Rightarrow> int \<Rightarrow> string \<Rightarrow> intent \<Rightarrow> message option" where
  "server_lobby_created l n p (Send_lobby_create gid lid lname maxp pid uname) =
     Some (Lobby_created l lname (public_name lname) n p)"
| "server_lobby_created l n p m = None"

section \<open>Example runs\<close>

text \<open>States and runs at which the theorems below are evaluated.\<close>

definition ann :: player where
  "ann = \<lparr> pl_id = ''p_ann'', pl_username = ''Ann'', pl_data = Map.empty \<rparr>"

definition joined_run :: "input list" where
  "joined_run =
     [CallOn ''disconnected'' 7 False,
      CallJoinLobby ''ws://h'' (Some ''g1'') ''L1'' (Some ''Bob''), SockOpen 0,
      SockMessage 0 (Parsed (Lobby_state ''L1'' ''Arena'' False ''p_ann'' 4 (Some [ann])))]"

definition created_run :: "input list" where
  "created_run =
     [CallOn ''lobbyCreated'' 3 False,
      CallCreateLobby ''ws://h'' (Some ''g1'') None (Some ''PUBLIC_Arena'') (Some 4) (Some ''Ann''),
      SockOpen 0,
      SockMessage 0 (Parsed (Lobby_created ''L1'' ''PUBLIC_Arena'' True 4 ''p_r''))]"

definition create_opened :: state where
  "create_opened =
     run ''r'' (SockOpen 0) (dispatch_all ''r'' (take 2 created_run) initial)"

definition create_waiting :: state where
  "create_waiting = dispatch_all ''r'' (take 3 created_run) initial"


definition fallback_run :: "input list" where
  "fallback_run =
     [CallOn ''ready'' 5 False,
      CallInit (Some ''ws://h'') (Some ''room1'') (Some ''Ann'') (Some ''g1'')
        (Some (CtxCreate (Some ''Arena'') None)),
      SockOpen 0,
      SockMessage 0 (Parsed (Error_msg ''full'')),
      SockOpen 1]"



definition list_opened :: state where
  "list_opened =
     (run ''r'' (SockOpen 0) (dispatch ''r'' (CallListLobbies ''ws://h'' (Some ''g1'')) initial))
     \<lparr> microtasks := [] \<rparr>"

definition list_waiting :: state where
  "list_waiting = run_task ''r'' (Continue 0 None) list_opened"

definition list_failed :: state where
  "list_failed =
     (run ''r'' (SockError 0) (dispatch ''r'' (CallListLobbies ''ws://h'' (Some ''g1'')) initial))
     \<lparr> microtasks := [] \<rparr>"

definition in_lobby :: state where
  "in_lobby = snd (getLobbyInfo (dispatch_all ''r'' joined_run initial))"

definition rename :: "lobby \<Rightarrow> lobby" where
  "rename ob = ob\<lparr> lobbyName := ''Mine'', ownerId := Some ''p_r'' \<rparr>"

section \<open>Frame lemmas\<close>

text \<open>What each function leaves unchanged.\<close>

lemma settle_frame [simp]:
  "ws (settle c out s) = ws s" "connected (settle c out s) = connected s"
  "playerId (settle c out s) = playerId s" "username (settle c out s) = username s"
  "gameId (settle c out s) = gameId s" "roomId (settle c out s) = roomId s"
  "players (settle c out s) = players s" "lobbyInfo (settle c out s) = lobbyInfo s"
  "isHost (settle c out s) = isHost s" "handlers (settle c out s) = handlers s"
  "objs (settle c out s) = objs s" "sockets (settle c out s) = sockets s"
  "timers (settle c out s) = timers s" "invoked (settle c out s) = invoked s"
  "console (settle c out s) = console s" "returned (settle c out s) = returned s"
  "length (calls (settle c out s)) = length (calls s)"
  by (simp_all add: settle_def)

lemma off_frame [simp]:
  "ws (off e h s) = ws s" "connected (off e h s) = connected s"
  "playerId (off e h s) = playerId s" "username (off e h s) = username s"
  "gameId (off e h s) = gameId s" "roomId (off e h s) = roomId s"
  "players (off e h s) = players s" "lobbyInfo (off e h s) = lobbyInfo s"
  "isHost (off e h s) = isHost s" "objs (off e h s) = objs s"
  "sockets (off e h s) = sockets s" "timers (off e h s) = timers s"
  "calls (off e h s) = calls s" "microtasks (off e h s) = microtasks s"
  "invoked (off e h s) = invoked s" "console (off e h s) = console s"
  "returned (off e h s) = returned s"
  by (simp_all add: off_def split: option.splits)

lemma on_frame [simp]:
  "ws (on e h s) = ws s" "connected (on e h s) = connected s"
  "playerId (on e h s) = playerId s" "username (on e h s) = username s"
  "gameId (on e h s) = gameId s" "roomId (on e h s) = roomId s"
  "players (on e h s) = players s" "lobbyInfo (on e h s) = lobbyInfo s"
  "isHost (on e h s) = isHost s" "objs (on e h s) = objs s" "sockets (on e h s) = sockets s"
  "timers (on e h s) = timers s" "calls (on e h s) = calls s"
  "microtasks (on e h s) = microtasks s" "invoked (on e h s) = invoked s"
  "console (on e h s) = console s" "returned (on e h s) = returned s"
  by (simp_all add: on_def)

lemma send_frame [simp]:
  "ws (send m s) = ws s" "connected (send m s) = connected s"
  "playerId (send m s) = playerId s" "username (send m s) = username s"
  "gameId (send m s) = gameId s" "roomId (send m s) = roomId s"
  "players (send m s) = players s" "lobbyInfo (send m s) = lobbyInfo s"
  "isHost (send m s) = isHost s" "handlers (send m s) = handlers s" "objs (send m s) = objs s"
  "timers (send m s) = timers s" "calls (send m s) = calls s"
  "microtasks (send m s) = microtasks s" "invoked (send m s) = invoked s"
  "console (send m s) = console s" "returned (send m s) = returned s"
  "length (sockets (send m s)) = length (sockets s)"
  by (simp_all add: send_def split: option.splits)

lemma close_socket_frame [simp]:
  "ws (close_socket i s) = ws s" "connected (close_socket i s) = connected s"
  "playerId (close_socket i s) = playerId s" "username (close_socket i s) = username s"
  "gameId (close_socket i s) = gameId s" "roomId (close_socket i s) = roomId s"
  "players (close_socket i s) = players s" "lobbyInfo (close_socket i s) = lobbyInfo s"
  "isHost (close_socket i s) = isHost s" "handlers (close_socket i s) = handlers s"
  "objs (close_socket i s) = objs s" "timers (close_socket i s) = timers s"
  "calls (close_socket i s) = calls s" "microtasks (close_socket i s) = microtasks s"
  "invoked (close_socket i s) = invoked s" "console (close_socket i s) = console s"
  "returned (close_socket i s) = returned s"
  "length (sockets (close_socket i s)) = length (sockets s)"
  by (simp_all add: close_socket_def)

lemma new_socket_frame [simp]:
  "ws (new_socket u h s) = ws s" "connected (new_socket u h s) = connected s"
  "playerId (new_socket u h s) = playerId s" "username (new_socket u h s) = username s"
  "gameId (new_socket u h s) = gameId s" "roomId (new_socket u h s) = roomId s"
  "players (new_socket u h s) = players s" "lobbyInfo (new_socket u h s) = lobbyInfo s"
  "isHost (new_socket u h s) = isHost s" "handlers (new_socket u h s) = handlers s"
  "objs (new_socket u h s) = objs s" "timers (new_socket u h s) = timers s"
  "calls (new_socket u h s) = calls s" "microtasks (new_socket u h s) = microtasks s"
  "invoked (new_socket u h s) = invoked s" "console (new_socket u h s) = console s"
  "returned (new_socket u h s) = returned s"
  by (simp_all add: new_socket_def)

lemma settle_open_frame [simp]:
  "ws (settle_open c r s) = ws s" "connected (settle_open c r s) = connected s"
  "playerId (settle_open c r s) = playerId s" "username (settle_open c r s) = username s"
  "gameId (settle_open c r s) = gameId s" "roomId (settle_open c r s) = roomId s"
  "players (settle_open c r s) = players s" "lobbyInfo (settle_open c r s) = lobbyInfo s"
  "isHost (settle_open c r s) = isHost s" "handlers (settle_open c r s) = handlers s"
  "objs (settle_open c r s) = objs s" "sockets (settle_open c r s) = sockets s"
  "timers (settle_open c r s) = timers s" "invoked (settle_open c r s) = invoked s"
  "console (settle_open c r s) = console s" "returned (settle_open c r s) = returned s"
  "length (calls (settle_open c r s)) = length (calls s)"
  by (simp_all add: settle_open_def)

lemma clearTimeout_frame [simp]:
  "ws (clearTimeout t s) = ws s" "connected (clearTimeout t s) = connected s"
  "playerId (clearTimeout t s) = playerId s" "username (clearTimeout t s) = username s"
  "gameId (clearTimeout t s) = gameId s" "roomId (clearTimeout t s) = roomId s"
  "players (clearTimeout t s) = players s" "lobbyInfo (clearTimeout t s) = lobbyInfo s"
  "isHost (clearTimeout t s) = isHost s" "handlers (clearTimeout t s) = handlers s"
  "objs (clearTimeout t s) = objs s" "sockets (clearTimeout t s) = sockets s"
  "calls (clearTimeout t s) = calls s" "microtasks (clearTimeout t s) = microtasks s"
  "invoked (clearTimeout t s) = invoked s" "console (clearTimeout t s) = console s"
  "returned (clearTimeout t s) = returned s"
  by (simp_all add: clearTimeout_def)

lemma set_ready_frame [simp]:
  "ws (set_ready i r s) = ws s" "connected (set_ready i r s) = connected s"
  "playerId (set_ready i r s) = playerId s" "username (set_ready i r s) = username s"
  "gameId (set_ready i r s) = gameId s" "roomId (set_ready i r s) = roomId s"
  "players (set_ready i r s) = players s" "lobbyInfo (set_ready i r s) = lobbyInfo s"
  "isHost (set_ready i r s) = isHost s" "handlers (set_ready i r s) = handlers s"
  "objs (set_ready i r s) = objs s" "timers (set_ready i r s) = timers s"
  "calls (set_ready i r s) = calls s" "microtasks (set_ready i r s) = microtasks s"
  "invoked (set_ready i r s) = invoked s" "console (set_ready i r s) = console s"
  "returned (set_ready i r s) = returned s"
  "length (sockets (set_ready i r s)) = length (sockets s)"
  by (simp_all add: set_ready_def)

lemma set_hooks_frame [simp]:
  "ws (set_hooks i h s) = ws s" "connected (set_hooks i h s) = connected s"
  "playerId (set_hooks i h s) = playerId s" "username (set_hooks i h s) = username s"
  "gameId (set_hooks i h s) = gameId s" "roomId (set_hooks i h s) = roomId s"
  "players (set_hooks i h s) = players s" "lobbyInfo (set_hooks i h s) = lobbyInfo s"
  "isHost (set_hooks i h s) = isHost s" "handlers (set_hooks i h s) = handlers s"
  "objs (set_hooks i h s) = objs s" "timers (set_hooks i h s) = timers s"
  "calls (set_hooks i h s) = calls s" "microtasks (set_hooks i h s) = microtasks s"
  "invoked (set_hooks i h s) = invoked s" "console (set_hooks i h s) = console s"
  "returned (set_hooks i h s) = returned s"
  "length (sockets (set_hooks i h s)) = length (sockets s)"
  by (simp_all add: set_hooks_def)

lemma alloc_frame [simp]:
  "ws (alloc ob s) = ws s" "connected (alloc ob s) = connected s"
  "playerId (alloc ob s) = playerId s" "username (alloc ob s) = username s"
  "gameId (alloc ob s) = gameId s" "roomId (alloc ob s) = roomId s"
  "players (alloc ob s) = players s" "lobbyInfo (alloc ob s) = lobbyInfo s"
  "isHost (alloc ob s) = isHost s" "handlers (alloc ob s) = handlers s"
  "sockets (alloc ob s) = sockets s" "timers (alloc ob s) = timers s"
  "calls (alloc ob s) = calls s" "microtasks (alloc ob s) = microtasks s"
  "invoked (alloc ob s) = invoked s" "console (alloc ob s) = console s"
  "returned (alloc ob s) = returned s"
  by (simp_all add: alloc_def)

lemma chain_frame [simp]:
  "ws (chain c r s) = ws s" "connected (chain c r s) = connected s"
  "playerId (chain c r s) = playerId s" "username (chain c r s) = username s"
  "gameId (chain c r s) = gameId s" "roomId (chain c r s) = roomId s"
  "players (chain c r s) = players s" "lobbyInfo (chain c r s) = lobbyInfo s"
  "isHost (chain c r s) = isHost s" "handlers (chain c r s) = handlers s"
  "objs (chain c r s) = objs s" "sockets (chain c r s) = sockets s"
  "timers (chain c r s) = timers s" "microtasks (chain c r s) = microtasks s"
  "invoked (chain c r s) = invoked s" "console (chain c r s) = console s"
  "returned (chain c r s) = returned s" "length (calls (chain c r s)) = length (calls s)"
  by (simp_all add: chain_def)

lemma new_call_frame [simp]:
  "ws (new_call k s) = ws s" "connected (new_call k s) = connected s"
  "playerId (new_call k s) = playerId s" "username (new_call k s) = username s"
  "gameId (new_call k s) = gameId s" "roomId (new_call k s) = roomId s"
  "players (new_call k s) = players s" "lobbyInfo (new_call k s) = lobbyInfo s"
  "isHost (new_call k s) = isHost s" "handlers (new_call k s) = handlers s"
  "objs (new_call k s) = objs s" "sockets (new_call k s) = sockets s"
  "timers (new_call k s) = timers s" "microtasks (new_call k s) = microtasks s"
  "invoked (new_call k s) = invoked s" "console (new_call k s) = console s"
  "returned (new_call k s) = returned s"
  by (simp_all add: new_call_def)

lemma assign_playerId_frame [simp]:
  "ws (assign_playerId rnd s) = ws s" "connected (assign_playerId rnd s) = connected s"
  "username (assign_playerId rnd s) = username s" "gameId (assign_playerId rnd s) = gameId s"
  "roomId (assign_playerId rnd s) = roomId s" "players (assign_playerId rnd s) = players s"
  "lobbyInfo (assign_playerId rnd s) = lobbyInfo s"
  "isHost (assign_playerId rnd s) = isHost s" "handlers (assign_playerId rnd s) = handlers s"
  "objs (assign_playerId rnd s) = objs s" "sockets (assign_playerId rnd s) = sockets s"
  "timers (assign_playerId rnd s) = timers s" "calls (assign_playerId rnd s) = calls s"
  "microtasks (assign_playerId rnd s) = microtasks s"
  "invoked (assign_playerId rnd s) = invoked s" "console (assign_playerId rnd s) = console s"
  "returned (assign_playerId rnd s) = returned s"
  by (simp_all add: assign_playerId_def)

lemma set_player_frame [simp]:
  "ws (set_player k p s) = ws s" "connected (set_player k p s) = connected s"
  "playerId (set_player k p s) = playerId s" "username (set_player k p s) = username s"
  "gameId (set_player k p s) = gameId s" "roomId (set_player k p s) = roomId s"
  "lobbyInfo (set_player k p s) = lobbyInfo s" "isHost (set_player k p s) = isHost s"
  "handlers (set_player k p s) = handlers s" "objs (set_player k p s) = objs s"
  "sockets (set_player k p s) = sockets s" "timers (set_player k p s) = timers s"
  "calls (set_player k p s) = calls s" "microtasks (set_player k p s) = microtasks s"
  "invoked (set_player k p s) = invoked s" "console (set_player k p s) = console s"
  "returned (set_player k p s) = returned s" "inherited (set_player k p s) = inherited s"
  by (simp_all add: set_player_def)

lemma forEach_frame:
  assumes "\<And>x s. g (fst (f x s)) = g s"
  shows "g (fst (forEach f xs s)) = g s"
proof (induction xs arbitrary: s)
  case Nil
  show ?case by simp
next
  case (Cons x xs)
  show ?case
  proof (cases "f x s")
    case (Pair s1 r)
    have "g s1 = g s" using assms[of x s] Pair by simp
    then show ?thesis using Pair Cons.IH[of s1] by (cases r) simp_all
  qed
qed

lemma emit_frame_gen:
  assumes "\<And>h s. g (fst (call_handler h ev s)) = g s"
    and "\<And>s l. g (s\<lparr> console := l \<rparr>) = g s"
  shows "g (emit ev s) = g s"
proof -
  have "g (fst (guarded ev h s)) = g s" for h s
    using assms(1)[of h s] assms(2)
    by (cases "call_handler h ev s") (auto simp: guarded_def split: option.splits)
  then show ?thesis unfolding emit_def emit_try_def by (rule forEach_frame)
qed

lemma call_handler_frame_gen:
  assumes "\<And>s x. g (s\<lparr> invoked := x \<rparr>) = g s"
    and "\<And>s c out. g (settle c out s) = g s"
    and "\<And>s e h. g (off e h s) = g s"
  shows "g (fst (call_handler h ev s)) = g s"
  using assms by (cases h) simp_all

lemma emit_frame [simp]:
  "ws (emit ev s) = ws s" "connected (emit ev s) = connected s"
  "playerId (emit ev s) = playerId s" "username (emit ev s) = username s"
  "gameId (emit ev s) = gameId s" "roomId (emit ev s) = roomId s"
  "players (emit ev s) = players s" "lobbyInfo (emit ev s) = lobbyInfo s"
  "isHost (emit ev s) = isHost s"
  "objs (emit ev s) = objs s" "sockets (emit ev s) = sockets s"
  "timers (emit ev s) = timers s" "returned (emit ev s) = returned s"
  "inherited (emit ev s) = inherited s" "plain (emit ev s) = plain s"
  "length (calls (emit ev s)) = length (calls s)"
  by (rule emit_frame_gen, rule call_handler_frame_gen, simp_all add: settle_def off_def split: option.splits)+

lemma connect_frame [simp]:
  "connected (connect rnd u rid uname s) = connected s"
  "players (connect rnd u rid uname s) = players s"
  "lobbyInfo (connect rnd u rid uname s) = lobbyInfo s"
  "isHost (connect rnd u rid uname s) = isHost s"
  "objs (connect rnd u rid uname s) = objs s"
  "returned (connect rnd u rid uname s) = returned s"
  "calls (connect rnd u rid uname s) = calls s"
  "handlers (connect rnd u rid uname s) = handlers s"
  "invoked (connect rnd u rid uname s) = invoked s"
  "microtasks (connect rnd u rid uname s) = microtasks s"
  by (simp_all add: connect_def Let_def)

lemma continue_call_frame [simp]:
  "connected (continue_call c k s) = connected s"
  "playerId (continue_call c k s) = playerId s"
  "players (continue_call c k s) = players s"
  "lobbyInfo (continue_call c k s) = lobbyInfo s"
  "isHost (continue_call c k s) = isHost s"
  "objs (continue_call c k s) = objs s"
  "returned (continue_call c k s) = returned s"
  by (cases k; simp add: Let_def)+

lemma react_frame [simp]:
  "connected (react rnd r out s) = connected s"
  "players (react rnd r out s) = players s"
  "lobbyInfo (react rnd r out s) = lobbyInfo s"
  "isHost (react rnd r out s) = isHost s"
  "objs (react rnd r out s) = objs s"
  "returned (react rnd r out s) = returned s"
  by (cases r; cases out; simp)+

lemma run_task_frame_gen:
  assumes "\<And>c k s. g (continue_call c k s) = g s"
    and "\<And>c out s. g (settle c out s) = g s"
    and "\<And>r out s. g (react rnd r out s) = g s"
  shows "g (run_task rnd t s) = g s"
proof (cases t)
  case (Continue c r)
  then show ?thesis using assms by (cases r) simp_all
next
  case (React c)
  then show ?thesis using assms by simp
qed

lemma run_task_frame [simp]:
  "connected (run_task rnd t s) = connected s"
  "players (run_task rnd t s) = players s"
  "lobbyInfo (run_task rnd t s) = lobbyInfo s"
  "isHost (run_task rnd t s) = isHost s"
  "objs (run_task rnd t s) = objs s"
  "returned (run_task rnd t s) = returned s"
  by (rule run_task_frame_gen, simp_all)+

lemma drain_frame_gen:
  assumes "\<And>t s. g (run_task rnd t s) = g s"
    and "\<And>s x. g (s\<lparr> microtasks := x \<rparr>) = g s"
  shows "g (drain n rnd s) = g s"
proof (induction n arbitrary: s)
  case 0
  show ?case by simp
next
  case (Suc n)
  show ?case
  proof (cases "microtasks s")
    case Nil
    then show ?thesis by simp
  next
    case (Cons t ts)
    then show ?thesis using Suc.IH[of "run_task rnd t (s\<lparr> microtasks := ts \<rparr>)"] assms by simp
  qed
qed

lemma drain_frame [simp]:
  "connected (drain n rnd s) = connected s"
  "players (drain n rnd s) = players s"
  "lobbyInfo (drain n rnd s) = lobbyInfo s"
  "isHost (drain n rnd s) = isHost s"
  "objs (drain n rnd s) = objs s"
  "returned (drain n rnd s) = returned s"
  by (rule drain_frame_gen, simp_all)+

section \<open>Lemmas on the event emitter\<close>

lemma guarded_effect:
  "snd (guarded ev h s) = None"
  "invoked (fst (guarded ev h s)) = invoked s @ [(h, ev)]"
  "console (fst (guarded ev h s)) = console s @ thrown [h]"
  by (cases h; simp add: guarded_def)+

lemma forEach_guarded:
  "snd (forEach (guarded ev) hs s) = None \<and>
   invoked (fst (forEach (guarded ev) hs s)) = invoked s @ map (\<lambda>h. (h, ev)) hs \<and>
   console (fst (forEach (guarded ev) hs s)) = console s @ thrown hs"
proof (induction hs arbitrary: s)
  case Nil
  show ?case by simp
next
  case (Cons h hs)
  obtain s1 where g: "guarded ev h s = (s1, None)"
    using guarded_effect(1)[of ev h s] by (cases "guarded ev h s") auto
  have i: "invoked s1 = invoked s @ [(h, ev)]" and c: "console s1 = console s @ thrown [h]"
    using guarded_effect(2,3)[of ev h s] g by simp_all
  have t: "thrown (h # hs) = thrown [h] @ thrown hs" by (cases h) simp_all
  show ?case using Cons.IH[of s1] g i c t by simp
qed

lemma emit_invoked:
  "invoked (emit ev s) = invoked s @ map (\<lambda>h. (h, ev)) (handlers_for (event_name ev) s)"
  using forEach_guarded[of ev "handlers_for (event_name ev) s" s]
  by (simp add: emit_def emit_try_def)

lemma emit_console:
  "console (emit ev s) = console s @ thrown (handlers_for (event_name ev) s)"
  using forEach_guarded[of ev "handlers_for (event_name ev) s" s]
  by (simp add: emit_def emit_try_def)

lemma handlers_for_on: "handlers_for e (on e h s) = handlers_for e s @ [h]"
  by (simp add: on_def handlers_for_def)

lemma fold_on:
  "handlers_for e (fold (on e) hs s) = handlers_for e s @ hs \<and>
   invoked (fold (on e) hs s) = invoked s \<and> console (fold (on e) hs s) = console s"
  by (induction hs arbitrary: s) (simp_all add: handlers_for_on)

section \<open>Lemmas on state updates\<close>

lemma map_of_update_same: "map_of (AList.update k v al) k = Some v"
  by (simp add: update_conv')



section \<open>Evaluating runs\<close>

lemma drain_unfold:
  "drain n rnd s =
     (if n = 0 then s
      else case microtasks s of [] \<Rightarrow> s
           | t # ts \<Rightarrow> drain (n - 1) rnd (run_task rnd t (s\<lparr> microtasks := ts \<rparr>)))"
  by (cases n) (simp_all split: list.splits)

lemmas sdk_defs =
  dispatch_def work_def initial_def createLobby_def joinLobby_def listLobbies_def openWS_def
  ws_open_def new_call_def new_socket_def assign_playerId_def or_else_def settle_open_def
  settle_def set_ready_def set_hooks_def clearTimeout_def on_def off_def emit_def emit_try_def
  guarded_def handlers_for_def send_def alloc_def index_players_def close_socket_def
  connect_def chain_def init_def init_online_def leaveLobby_def disconnect_def getLobbyInfo_def mutate_def
  set_player_def sets_proto_def inherited_data_def proto_members_def spread_def Let_def

lemma handlers_for_set_ready [simp]: "handlers_for e (set_ready i r s) = handlers_for e s"
  by (simp add: handlers_for_def)

lemma joined_state:
  "sockets (dispatch_all ''r'' joined_run initial) =
     [\<lparr> url = ''ws://h'', readyState = OPEN, hooks = Opened,
        sent = [Send_lobby_join (Some ''g1'') ''L1'' (Some ''p_r'') ''Bob''] \<rparr>]"
  "players (dispatch_all ''r'' joined_run initial) = [(''p_ann'', ann)]"
  "lobbyInfo (dispatch_all ''r'' joined_run initial) = Some 0"
  "connected (dispatch_all ''r'' joined_run initial) = True"
  "handlers_for ''disconnected'' (dispatch_all ''r'' joined_run initial) = [UserFn 7 False]"
  by (simp_all add: joined_run_def sdk_defs drain_unfold ann_def)

lemma handlers_for_players [simp]:
  "handlers_for e (s\<lparr> players := x \<rparr>) = handlers_for e s"
  "handlers_for e (s\<lparr> plain := y \<rparr>) = handlers_for e s"
  "handlers_for e (s\<lparr> inherited := z \<rparr>) = handlers_for e s"
  "handlers_for e (set_player k p s) = handlers_for e s"
  by (simp_all add: handlers_for_def)

lemma handlers_for_lobby [simp]:
  "handlers_for e (alloc ob s) = handlers_for e s"
  "handlers_for e (s\<lparr> lobbyInfo := a \<rparr>) = handlers_for e s"
  "handlers_for e (s\<lparr> isHost := b \<rparr>) = handlers_for e s"
  by (simp_all add: handlers_for_def)

lemma create_opened_state:
  "ws create_opened = Some 0"
  "sockets create_opened =
     [\<lparr> url = ''ws://h'', readyState = OPEN, hooks = Opened, sent = [] \<rparr>]"
  "playerId create_opened = Some ''p_r''" "username create_opened = ''Ann''"
  "invoked create_opened = []"
  "handlers_for ''lobbyCreated'' create_opened = [UserFn 3 False]"
  "microtasks create_opened = [Continue 0 None]"
  by (simp_all add: create_opened_def created_run_def sdk_defs drain_unfold)

section \<open>Lemmas on the calls and the init hook\<close>

lemma openWS_calls:
  "c < length (calls s) \<Longrightarrow>
     length (calls (openWS u c s)) = length (calls s) \<and>
     reaction (calls (openWS u c s) ! c) = reaction (calls s ! c) \<and>
     outcome (calls (openWS u c s) ! c) = outcome (calls s ! c) \<and>
     kind (calls (openWS u c s) ! c) = kind (calls s ! c)"
  by (simp add: openWS_def settle_open_def new_socket_def Let_def split: option.splits)

lemma new_call_calls:
  "length (calls (new_call k s)) = Suc (length (calls s))"
  "calls (new_call k s) ! length (calls s) =
     \<lparr> kind = k, opened = None, outcome = Pending, reaction = NoReaction \<rparr>"
  by (simp_all add: new_call_def)

lemma createLobby_calls:
  "length (calls (createLobby rnd u gid lid lname maxp uname s)) = Suc (length (calls s)) \<and>
   reaction (calls (createLobby rnd u gid lid lname maxp uname s) ! length (calls s)) = NoReaction \<and>
   outcome (calls (createLobby rnd u gid lid lname maxp uname s) ! length (calls s)) = Pending"
proof -
  define s1 where "s1 = (assign_playerId rnd s)\<lparr> username := or_else uname (username s), gameId := gid \<rparr>"
  define k where "k = Create gid lid (case lname of None \<Rightarrow> ''My Lobby'' | Some n \<Rightarrow> n)
                        (case maxp of None \<Rightarrow> 8 | Some m \<Rightarrow> m)"
  have l: "length (calls s1) = length (calls s)" by (simp add: s1_def)
  have e: "createLobby rnd u gid lid lname maxp uname s = openWS u (length (calls s1)) (new_call k s1)"
    by (simp add: createLobby_def s1_def k_def Let_def)
  show ?thesis
    using openWS_calls[of "length (calls s1)" "new_call k s1" u] new_call_calls[of k s1] l
    unfolding e by simp
qed





lemma handlers_for_connect [simp]:
  "handlers_for e (connect rnd u rid uname s) = handlers_for e s"
  "handlers_for e (s\<lparr> console := x \<rparr>) = handlers_for e s"
  by (simp_all add: handlers_for_def)




section \<open>Closures, microtasks and promises\<close>

lemma handlers_for_on_off:
  "handlers_for e' (on e h s) = (if e' = e then handlers_for e s @ [h] else handlers_for e' s)"
  "handlers_for e' (off e h s) =
     (if e' = e then filter (\<lambda>x. x \<noteq> h) (handlers_for e s) else handlers_for e' s)"
  by (simp_all add: on_def off_def handlers_for_def split: option.splits)

lemma wired_cong:
  "handlers s' = handlers s \<Longrightarrow> calls s' = calls s \<Longrightarrow> microtasks s' = microtasks s \<Longrightarrow>
   wired s' = wired s"
  by (simp add: wired_def handlers_for_def)

lemma wired_off: "wired s \<Longrightarrow> wired (off e h s)"
  by (auto simp add: wired_def handlers_for_on_off split: if_splits)

lemma wired_on:
  "wired s \<Longrightarrow> (\<And>c. rejects h = Some c \<Longrightarrow> c < length (calls s) \<and> \<not> is_List (kind (calls s ! c))) \<Longrightarrow>
   wired (on e h s)"
  by (auto simp add: wired_def handlers_for_on_off split: if_splits)

lemma wired_settle:
  "wired s \<Longrightarrow>
   (rejected out \<Longrightarrow> c < length (calls s) \<Longrightarrow> is_List (kind (calls s ! c)) \<Longrightarrow>
      opened (calls s ! c) = Some False) \<Longrightarrow>
   wired (settle c out s)"
  by (auto simp add: wired_def settle_def nth_list_update handlers_for_def)

lemma wired_settle_open: "wired s \<Longrightarrow> wired (settle_open c r s)"
  by (auto simp add: wired_def settle_open_def nth_list_update handlers_for_def split: option.splits)

lemma wired_new_call: "wired s \<Longrightarrow> wired (new_call k s)"
  by (auto simp add: wired_def new_call_def nth_append less_Suc_eq handlers_for_def)

lemma wired_chain: "wired s \<Longrightarrow> wired (chain c r s)"
  by (auto simp add: wired_def chain_def nth_list_update handlers_for_def)

lemma settle_kinds [simp]: "map kind (calls (settle c out s)) = map kind (calls s)"
  by (simp add: settle_def map_update list_update_same_conv)

lemma call_handler_kinds: "map kind (calls (fst (call_handler h ev s))) = map kind (calls s)"
  by (cases h) simp_all

lemma guarded_kinds: "map kind (calls (fst (guarded ev h s))) = map kind (calls s)"
  using call_handler_kinds[of h ev s]
  by (cases "call_handler h ev s") (auto simp: guarded_def split: option.splits)

lemma emit_kinds: "map kind (calls (emit ev s)) = map kind (calls s)"
  unfolding emit_def emit_try_def
  by (rule forEach_frame[where g = "\<lambda>s. map kind (calls s)"]) (rule guarded_kinds)

lemma kinds_nth:
  "map kind (calls s') = map kind (calls s) \<Longrightarrow>
   length (calls s') = length (calls s) \<and>
   (\<forall>c < length (calls s). kind (calls s' ! c) = kind (calls s ! c))"
  by (metis length_map nth_map)

lemma wired_call_handler:
  assumes "wired s"
    and "\<And>c. rejects h = Some c \<Longrightarrow> c < length (calls s) \<and> \<not> is_List (kind (calls s ! c))"
  shows "wired (fst (call_handler h ev s))"
proof -
  have i: "wired (s\<lparr> invoked := x \<rparr>)" for x using assms(1) wired_cong[of "s\<lparr> invoked := x \<rparr>" s] by simp
  show ?thesis
  proof (cases h)
    case (UserFn n t)
    then show ?thesis using i by simp
  next
    case (OnCreated c)
    then show ?thesis using i by (auto intro!: wired_settle wired_off)
  next
    case (OnErrCreate c)
    then show ?thesis using i assms(2)[of c] by (auto intro!: wired_settle wired_off)
  next
    case (OnJoined c)
    then show ?thesis using i by (auto intro!: wired_settle wired_off)
  next
    case (OnErrJoin c)
    then show ?thesis using i assms(2)[of c] by (auto intro!: wired_settle wired_off)
  next
    case (OnList c)
    then show ?thesis using i by (auto intro!: wired_settle wired_off)
  qed
qed

lemma wired_guarded:
  assumes "wired s"
    and "\<And>c. rejects h = Some c \<Longrightarrow> c < length (calls s) \<and> \<not> is_List (kind (calls s ! c))"
  shows "wired (fst (guarded ev h s))"
proof (cases "call_handler h ev s")
  case (Pair s1 r)
  have "wired (fst (call_handler h ev s))" using assms by (rule wired_call_handler)
  then have w: "wired s1" using Pair by simp
  have "wired (s1\<lparr> console := x \<rparr>)" for x using w wired_cong[of "s1\<lparr> console := x \<rparr>" s1] by simp
  then show ?thesis using w Pair by (cases r) (simp_all add: guarded_def)
qed

lemma wired_forEach:
  "wired s \<Longrightarrow>
   (\<forall>h \<in> set hs. \<forall>c. rejects h = Some c \<longrightarrow> c < length (calls s) \<and> \<not> is_List (kind (calls s ! c))) \<Longrightarrow>
   wired (fst (forEach (guarded ev) hs s))"
proof (induction hs arbitrary: s)
  case Nil
  then show ?case by simp
next
  case (Cons h hs)
  obtain s1 r where g: "guarded ev h s = (s1, r)" by (cases "guarded ev h s")
  have "wired (fst (guarded ev h s))" using Cons.prems by (intro wired_guarded) auto
  then have w: "wired s1" using g by simp
  have k: "length (calls s1) = length (calls s) \<and>
      (\<forall>c < length (calls s). kind (calls s1 ! c) = kind (calls s ! c))"
    using kinds_nth[OF guarded_kinds[of ev h s]] g by simp
  have "\<forall>h \<in> set hs. \<forall>c. rejects h = Some c \<longrightarrow> c < length (calls s1) \<and> \<not> is_List (kind (calls s1 ! c))"
    using Cons.prems(2) k by simp
  then have "wired (fst (forEach (guarded ev) hs s1))" using Cons.IH[OF w] by blast
  then show ?case using g w by (cases r) simp_all
qed

lemma wired_emit: "wired s \<Longrightarrow> wired (emit ev s)"
  unfolding emit_def emit_try_def
  by (rule wired_forEach) (auto simp add: wired_def)

lemma wired_upd [simp]:
  "wired (s\<lparr> players := a1 \<rparr>) = wired s" "wired (s\<lparr> lobbyInfo := a2 \<rparr>) = wired s"
  "wired (s\<lparr> isHost := a3 \<rparr>) = wired s" "wired (s\<lparr> objs := a4 \<rparr>) = wired s"
  "wired (s\<lparr> console := a5 \<rparr>) = wired s" "wired (s\<lparr> connected := a6 \<rparr>) = wired s"
  "wired (s\<lparr> timers := a7 \<rparr>) = wired s" "wired (s\<lparr> ws := a8 \<rparr>) = wired s"
  "wired (s\<lparr> sockets := a9 \<rparr>) = wired s" "wired (s\<lparr> playerId := b1 \<rparr>) = wired s"
  "wired (s\<lparr> username := b2 \<rparr>) = wired s" "wired (s\<lparr> gameId := b3 \<rparr>) = wired s"
  "wired (s\<lparr> roomId := b4 \<rparr>) = wired s" "wired (s\<lparr> returned := b5 \<rparr>) = wired s"
  "wired (s\<lparr> lorlServerUrl := b6 \<rparr>) = wired s" "wired (s\<lparr> lorlGameId := b7 \<rparr>) = wired s"
  "wired (s\<lparr> invoked := b8 \<rparr>) = wired s" "wired (s\<lparr> plain := b9 \<rparr>) = wired s"
  "wired (s\<lparr> inherited := c1 \<rparr>) = wired s"
  by (rule wired_cong; simp)+

lemma wired_prims [simp]:
  "wired (send m s) = wired s" "wired (close_socket i s) = wired s"
  "wired (new_socket u h s) = wired s" "wired (clearTimeout t s) = wired s"
  "wired (set_ready i r s) = wired s" "wired (set_hooks i h s) = wired s"
  "wired (alloc ob s) = wired s" "wired (assign_playerId rnd s) = wired s"
  "wired (set_player k p s) = wired s"
  by (rule wired_cong; simp)+

lemma wired_handleMessage: "wired s \<Longrightarrow> wired (handleMessage msg s)"
  by (cases msg) (simp_all add: wired_emit Let_def split: option.splits)

lemma wired_connect: "wired (connect rnd u rid uname s) = wired s"
  by (simp add: connect_def Let_def)

lemma wired_continue_call:
  assumes "wired s" and "c < length (calls s)"
  shows "wired (continue_call c (kind (calls s ! c)) s)"
proof (cases "kind (calls s ! c)")
  case (Create gid lid lname maxp)
  have k: "length (calls (emit (Connected (playerId s)) s)) = length (calls s) \<and>
      kind (calls (emit (Connected (playerId s)) s) ! c) = kind (calls s ! c)"
    using kinds_nth[OF emit_kinds[of "Connected (playerId s)" s]] assms(2) by simp
  show ?thesis using Create assms k
    by (auto simp add: Let_def intro!: wired_on wired_emit)
next
  case (Join gid lid)
  have k: "length (calls (emit (Connected (playerId s)) s)) = length (calls s) \<and>
      kind (calls (emit (Connected (playerId s)) s) ! c) = kind (calls s ! c)"
    using kinds_nth[OF emit_kinds[of "Connected (playerId s)" s]] assms(2) by simp
  show ?thesis using Join assms k
    by (auto simp add: Let_def intro!: wired_on wired_emit)
next
  case (List gid)
  then show ?thesis using assms by (auto simp add: Let_def intro!: wired_on)
qed

lemma wired_react: "wired s \<Longrightarrow> wired (react rnd r out s)"
  by (cases r; cases out) (simp_all add: wired_emit wired_connect)

lemma wired_run_task:
  assumes "wired s" and "microtasks s = t # ts"
  shows "wired (run_task rnd t (s\<lparr> microtasks := ts \<rparr>))"
proof -
  let ?s = "s\<lparr> microtasks := ts \<rparr>"
  have w: "wired ?s" using assms by (auto simp add: wired_def handlers_for_def)
  show ?thesis
  proof (cases t)
    case (Continue c r)
    show ?thesis
    proof (cases r)
      case None
      then show ?thesis using Continue w wired_continue_call[of ?s c] by simp
    next
      case (Some e)
      have "c < length (calls s) \<and> opened (calls s ! c) = Some False"
        using assms Continue Some by (auto simp add: wired_def)
      then show ?thesis using Continue Some w by (auto intro!: wired_settle)
    qed
  next
    case (React c)
    then show ?thesis using w by (simp add: wired_react)
  qed
qed

lemma wired_drain: "wired s \<Longrightarrow> wired (drain n rnd s)"
proof (induction n arbitrary: s)
  case 0
  then show ?case by simp
next
  case (Suc n)
  show ?case
  proof (cases "microtasks s")
    case Nil
    then show ?thesis using Suc.prems by simp
  next
    case (Cons t ts)
    then show ?thesis using Suc.IH[OF wired_run_task[OF Suc.prems Cons]] by simp
  qed
qed

lemma wired_openWS: "wired s \<Longrightarrow> wired (openWS u c s)"
  by (simp add: openWS_def Let_def wired_settle_open split: option.splits)

lemma wired_onopen: "wired s \<Longrightarrow> wired (onopen i h s)"
  by (cases h) (simp_all add: wired_settle_open wired_emit Let_def)

lemma wired_onmessage: "wired s \<Longrightarrow> wired (onmessage h f s)"
  by (cases h; cases f) (simp_all add: wired_handleMessage)

lemma wired_onclose: "wired s \<Longrightarrow> wired (onclose h s)"
  by (cases h) (simp_all add: wired_emit)

lemma wired_onerror: "wired s \<Longrightarrow> wired (onerror i h s)"
  by (cases h) (simp_all add: wired_settle_open wired_emit)

lemma wired_fire: "wired s \<Longrightarrow> wired (fire t s)"
  by (cases t) (auto simp add: wired_settle_open intro!: wired_settle wired_off)

lemma wired_createLobby: "wired s \<Longrightarrow> wired (createLobby rnd u gid lid lname maxp uname s)"
  by (simp add: createLobby_def Let_def wired_openWS wired_new_call)

lemma wired_joinLobby: "wired s \<Longrightarrow> wired (joinLobby rnd u gid lid uname s)"
  by (simp add: joinLobby_def Let_def wired_openWS wired_new_call)

lemma wired_listLobbies: "wired s \<Longrightarrow> wired (listLobbies u gid s)"
  by (simp add: listLobbies_def wired_openWS wired_new_call)

lemma wired_init_online: "wired s \<Longrightarrow> wired (init_online rnd u rid uname ctx s)"
  by (auto simp add: init_online_def wired_connect
      intro!: wired_emit wired_chain wired_createLobby wired_joinLobby
      split: option.splits lobby_ctx.splits)

lemma wired_init: "wired s \<Longrightarrow> wired (init rnd u rid uname gid ctx s)"
  by (simp add: init_def Let_def wired_emit wired_init_online)

lemma wired_run:
  assumes w: "wired s"
  shows "wired (run rnd inp s)"
proof (cases inp)
  case (CallOn e n t)
  then show ?thesis using w by (auto intro!: wired_on)
next
  case (CallOff e n t)
  then show ?thesis using w by (simp add: wired_off)
next
  case (CallCreateLobby u gid lid lname maxp uname)
  then show ?thesis using w by (simp add: wired_createLobby)
next
  case (CallJoinLobby u gid lid uname)
  then show ?thesis using w by (simp add: wired_joinLobby)
next
  case CallLeaveLobby
  then show ?thesis using w by (simp add: leaveLobby_def)
next
  case (CallListLobbies u gid)
  then show ?thesis using w by (simp add: wired_listLobbies)
next
  case (CallKickFromLobby p)
  then show ?thesis using w by (simp add: kickFromLobby_def)
next
  case CallCloseLobby
  then show ?thesis using w by (simp add: closeLobby_def)
next
  case CallGetLobbyInfo
  then show ?thesis using w by (simp add: getLobbyInfo_def split: option.splits)
next
  case (CallConnect u rid uname)
  then show ?thesis using w by (simp add: wired_connect)
next
  case CallDisconnect
  then show ?thesis using w by (simp add: disconnect_def split: option.splits)
next
  case (CallUpdateState d)
  then show ?thesis using w by (simp add: updateState_def)
next
  case (CallSendMessage ev d)
  then show ?thesis using w by (simp add: sendMessage_def)
next
  case (CallInit u rid uname gid ctx)
  then show ?thesis using w by (simp add: wired_init)
next
  case (Write r f)
  then show ?thesis using w by (simp add: mutate_def)
next
  case (SockOpen i)
  then show ?thesis using w by (simp add: wired_onopen)
next
  case (SockMessage i f)
  then show ?thesis using w by (simp add: wired_onmessage)
next
  case (SockError i)
  then show ?thesis using w by (simp add: wired_onerror)
next
  case (SockClose i)
  then show ?thesis using w by (simp add: wired_onclose)
next
  case (Timeout d t)
  then show ?thesis using w by (simp add: wired_fire)
qed

lemma wired_dispatch: "wired s \<Longrightarrow> wired (dispatch rnd inp s)"
  by (simp add: dispatch_def Let_def wired_drain wired_run)

lemma wired_dispatch_each: "wired s \<Longrightarrow> wired (dispatch_each steps s)"
  by (induction steps arbitrary: s) (auto simp add: wired_dispatch)

lemma wired_initial: "wired initial"
  by (simp add: wired_def initial_def handlers_for_def)

section \<open>Settling a promise\<close>

lemma settle_other:
  "c' \<noteq> c \<Longrightarrow> outcome (calls (settle c' out s) ! c) = outcome (calls s ! c)"
  by (simp add: settle_def)

lemma settle_settled:
  "\<not> pending (outcome (calls s ! c)) \<Longrightarrow> outcome (calls (settle c' out s) ! c) = outcome (calls s ! c)"
  by (cases "c' = c") (simp_all add: settle_def)

lemma settle_pending:
  "c < length (calls s) \<Longrightarrow> pending (outcome (calls s ! c)) \<Longrightarrow>
   outcome (calls (settle c out s) ! c) = out"
  by (simp add: settle_def)

lemma guarded_calls: "calls (fst (guarded ev h s)) = calls (fst (call_handler h ev s))"
  by (cases "call_handler h ev s") (auto simp add: guarded_def split: option.splits)

lemma guarded_settled:
  "\<not> pending (outcome (calls s ! c)) \<Longrightarrow>
   outcome (calls (fst (guarded ev h s)) ! c) = outcome (calls s ! c)"
  unfolding guarded_calls by (cases h) (simp_all add: settle_settled)

lemma guarded_other:
  "target h \<noteq> Some c \<Longrightarrow> outcome (calls (fst (guarded ev h s)) ! c) = outcome (calls s ! c)"
  unfolding guarded_calls by (cases h) (simp_all add: settle_other)

lemma guarded_OnList:
  "c < length (calls s) \<Longrightarrow> pending (outcome (calls s ! c)) \<Longrightarrow>
   outcome (calls (fst (guarded ev (OnList c) s)) ! c) = Resolved ev"
  unfolding guarded_calls by (simp add: settle_pending)

lemma forEach_settled:
  "\<not> pending (outcome (calls s ! c)) \<Longrightarrow>
   outcome (calls (fst (forEach (guarded ev) hs s)) ! c) = outcome (calls s ! c)"
proof (induction hs arbitrary: s)
  case Nil
  show ?case by simp
next
  case (Cons h hs)
  obtain s1 r where g: "guarded ev h s = (s1, r)" by (cases "guarded ev h s")
  have o: "outcome (calls s1 ! c) = outcome (calls s ! c)"
    using guarded_settled[OF Cons.prems, of ev h] g by simp
  then have "outcome (calls (fst (forEach (guarded ev) hs s1)) ! c) = outcome (calls s ! c)"
    using Cons.IH[of s1] Cons.prems by simp
  then show ?case using g by (cases r) (simp_all add: o)
qed

lemma forEach_OnList:
  "c < length (calls s) \<Longrightarrow> pending (outcome (calls s ! c)) \<Longrightarrow> OnList c \<in> set hs \<Longrightarrow>
   (\<forall>h \<in> set hs. target h = Some c \<longrightarrow> h = OnList c) \<Longrightarrow>
   outcome (calls (fst (forEach (guarded ev) hs s)) ! c) = Resolved ev"
proof (induction hs arbitrary: s)
  case Nil
  then show ?case by simp
next
  case (Cons h hs)
  obtain s1 where g: "guarded ev h s = (s1, None)"
    using guarded_effect(1)[of ev h s] by (cases "guarded ev h s") auto
  have l: "length (calls s1) = length (calls s)"
    using kinds_nth[OF guarded_kinds[of ev h s]] g by simp
  show ?case
  proof (cases "h = OnList c")
    case True
    have o: "outcome (calls s1 ! c) = Resolved ev"
      using guarded_OnList[OF Cons.prems(1,2), of ev] g True by simp
    then have "outcome (calls (fst (forEach (guarded ev) hs s1)) ! c) = Resolved ev"
      using forEach_settled[of s1 c ev hs] by simp
    then show ?thesis using g by simp
  next
    case False
    then have t: "target h \<noteq> Some c" using Cons.prems(4) by auto
    have o: "outcome (calls s1 ! c) = outcome (calls s ! c)"
      using guarded_other[OF t, of ev s] g by simp
    have p1: "c < length (calls s1)" using l Cons.prems(1) by simp
    have p2: "pending (outcome (calls s1 ! c))" using o Cons.prems(2) by simp
    have p3: "OnList c \<in> set hs" using Cons.prems(3) False by auto
    have p4: "\<forall>h \<in> set hs. target h = Some c \<longrightarrow> h = OnList c" using Cons.prems(4) by simp
    have "outcome (calls (fst (forEach (guarded ev) hs s1)) ! c) = Resolved ev"
      using Cons.IH[OF p1 p2 p3 p4] .
    then show ?thesis using g by simp
  qed
qed

lemma emit_settled:
  "\<not> pending (outcome (calls s ! c)) \<Longrightarrow> outcome (calls (emit ev s) ! c) = outcome (calls s ! c)"
  unfolding emit_def emit_try_def by (rule forEach_settled)

lemma handleMessage_settled:
  "\<not> pending (outcome (calls s ! c)) \<Longrightarrow>
   outcome (calls (handleMessage msg s) ! c) = outcome (calls s ! c)"
  by (cases msg) (simp_all add: emit_settled Let_def split: option.splits)

lemma fire_settled:
  "\<not> pending (outcome (calls s ! c)) \<Longrightarrow> outcome (calls (fire t s) ! c) = outcome (calls s ! c)"
  by (cases t) (auto simp add: settle_settled settle_open_def nth_list_update)

lemma list_opened_state:
  "calls list_opened =
     [\<lparr> kind = List (Some ''g1''), opened = Some True, outcome = Pending, reaction = NoReaction \<rparr>]"
  "ws list_opened = Some 0"
  "sockets list_opened = [\<lparr> url = ''ws://h'', readyState = OPEN, hooks = Opened, sent = [] \<rparr>]"
  "handlers_for ''lobbyList'' list_opened = []"
  "timers list_opened = []"
  by (simp_all add: list_opened_def sdk_defs drain_unfold)

lemma list_waiting_state:
  "calls list_waiting =
     [\<lparr> kind = List (Some ''g1''), opened = Some True, outcome = Pending, reaction = NoReaction \<rparr>]"
  "handlers_for ''lobbyList'' list_waiting = [OnList 0]"
  "timers list_waiting = [(5000, ListTimeout 0)]"
  "sockets list_waiting =
     [\<lparr> url = ''ws://h'', readyState = OPEN, hooks = Opened, sent = [Send_lobby_list (Some ''g1'')] \<rparr>]"
  by (simp_all add: list_waiting_def list_opened_def sdk_defs drain_unfold)

lemma list_waiting_run:
  "dispatch_all ''r'' [CallListLobbies ''ws://h'' (Some ''g1''), SockOpen 0] initial = list_waiting"
  by (simp add: list_waiting_def list_opened_def sdk_defs drain_unfold)

lemma list_failed_state:
  "calls list_failed =
     [\<lparr> kind = List (Some ''g1''), opened = Some False, outcome = Pending, reaction = NoReaction \<rparr>]"
  "microtasks (run ''r'' (SockError 0) (dispatch ''r'' (CallListLobbies ''ws://h'' (Some ''g1'')) initial)) =
     [Continue 0 (Some (Error (SocketError 0)))]"
  by (simp_all add: list_failed_def sdk_defs drain_unfold)

lemma list_rejected_run:
  "calls (dispatch_each [(''r'', CallListLobbies ''ws://h'' (Some ''g1'')), (''r'', SockError 0)] initial) =
     [\<lparr> kind = List (Some ''g1''), opened = Some False,
        outcome = Rejected (Error (SocketError 0)), reaction = NoReaction \<rparr>]"
  by (simp add: sdk_defs drain_unfold)

section \<open>Host flag and lobby owner\<close>

lemma sound_cong:
  "lobbyInfo s' = lobbyInfo s \<Longrightarrow> isHost s' = isHost s \<Longrightarrow> playerId s' = playerId s \<Longrightarrow>
   objs s' = objs s \<Longrightarrow> returned s' = returned s \<Longrightarrow>
   map reaction (calls s') = map reaction (calls s) \<Longrightarrow> sound s' = sound s"
proof -
  assume a: "lobbyInfo s' = lobbyInfo s" "isHost s' = isHost s" "playerId s' = playerId s"
    "objs s' = objs s" "returned s' = returned s"
    and m: "map reaction (calls s') = map reaction (calls s)"
  have "list_all (\<lambda>c. reaction c = NoReaction) (calls s') =
        list_all (\<lambda>r. r = NoReaction) (map reaction (calls s'))"
       "list_all (\<lambda>c. reaction c = NoReaction) (calls s) =
        list_all (\<lambda>r. r = NoReaction) (map reaction (calls s))"
    by (simp_all add: list_all_iff)
  then show ?thesis using a m
    by (simp add: sound_def store_ok_def host_ok_def chains_ok_def cong: option.case_cong)
qed

lemma reactions_prims [simp]:
  "map reaction (calls (settle c out s)) = map reaction (calls s)"
  "map reaction (calls (settle_open c r s)) = map reaction (calls s)"
  by (simp_all add: settle_def settle_open_def map_update list_update_same_conv)

lemma call_handler_reactions:
  "map reaction (calls (fst (call_handler h ev s))) = map reaction (calls s)"
  by (cases h) simp_all

lemma emit_reactions [simp]: "map reaction (calls (emit ev s)) = map reaction (calls s)"
  by (rule emit_frame_gen[where g = "\<lambda>s. map reaction (calls s)"])
     (simp_all add: call_handler_reactions)

lemma sound_upd [simp]:
  "sound (s\<lparr> players := a1 \<rparr>) = sound s" "sound (s\<lparr> console := a5 \<rparr>) = sound s"
  "sound (s\<lparr> connected := a6 \<rparr>) = sound s" "sound (s\<lparr> timers := a7 \<rparr>) = sound s"
  "sound (s\<lparr> ws := a8 \<rparr>) = sound s" "sound (s\<lparr> sockets := a9 \<rparr>) = sound s"
  "sound (s\<lparr> username := b2 \<rparr>) = sound s" "sound (s\<lparr> gameId := b3 \<rparr>) = sound s"
  "sound (s\<lparr> roomId := b4 \<rparr>) = sound s" "sound (s\<lparr> microtasks := b5 \<rparr>) = sound s"
  "sound (s\<lparr> lorlServerUrl := b6 \<rparr>) = sound s" "sound (s\<lparr> lorlGameId := b7 \<rparr>) = sound s"
  "sound (s\<lparr> invoked := b8 \<rparr>) = sound s" "sound (s\<lparr> handlers := b9 \<rparr>) = sound s"
  "sound (s\<lparr> plain := c1 \<rparr>) = sound s" "sound (s\<lparr> inherited := c2 \<rparr>) = sound s"
  by (rule sound_cong; simp)+

lemma sound_prims [simp]:
  "sound (send m s) = sound s" "sound (close_socket i s) = sound s"
  "sound (new_socket u h s) = sound s" "sound (clearTimeout t s) = sound s"
  "sound (set_ready i r s) = sound s" "sound (set_hooks i h s) = sound s"
  "sound (on e x s) = sound s" "sound (off e x s) = sound s"
  "sound (settle c out s) = sound s" "sound (settle_open c ro s) = sound s"
  "sound (emit ev s) = sound s" "sound (set_player k p s) = sound s"
  by (rule sound_cong; simp)+

lemma sound_new_call [simp]: "sound (new_call k s) = sound s"
  by (simp add: sound_def store_ok_def host_ok_def chains_ok_def new_call_def cong: option.case_cong)




lemma sound_openWS [simp]: "sound (openWS u c s) = sound s"
  by (simp add: openWS_def Let_def split: option.splits)




lemma playerId_assigned [simp]:
  "playerId (assign_playerId rnd s) \<noteq> None"
  by (simp add: assign_playerId_def)

lemma playerId_openWS [simp]: "playerId (openWS u c s) = playerId s"
  by (simp add: openWS_def Let_def split: option.splits)

lemma playerId_created [simp]:
  "playerId (createLobby rnd u gid lid lname maxp uname s) \<noteq> None"
  "playerId (joinLobby rnd u gid lobby uname s) \<noteq> None"
  by (simp_all add: createLobby_def joinLobby_def Let_def)








lemma sound_continue_call [simp]: "sound (continue_call c k s) = sound s"
  by (cases k) (simp_all add: Let_def)





lemma collides_upd [simp]:
  "collides rnd (s\<lparr> gameId := a, username := b, lorlServerUrl := c, lorlGameId := d \<rparr>) = collides rnd s"
  by (simp add: collides_def cong: option.case_cong)






section \<open>Resolving createLobby and joinLobby\<close>





lemma handlers_for_created [simp]:
  "handlers_for e ((alloc ob s)\<lparr> lobbyInfo := a, isHost := b \<rparr>) = handlers_for e s"
  "handlers_for e ((alloc ob s)\<lparr> players := x, lobbyInfo := a, isHost := b \<rparr>) = handlers_for e s"
  by (simp_all add: handlers_for_def)



lemma create_waiting_state:
  "calls create_waiting =
     [\<lparr> kind = Create (Some ''g1'') None ''PUBLIC_Arena'' 4, opened = Some True,
        outcome = Pending, reaction = NoReaction \<rparr>]"
  "handlers_for ''lobbyCreated'' create_waiting = [UserFn 3 False, OnCreated 0]"
  "objs create_waiting = []" "playerId create_waiting = Some ''p_r''"
  by (simp_all add: create_waiting_def created_run_def sdk_defs drain_unfold)



section \<open>The store of lobby objects\<close>

text \<open>
  Apart from the lobby cases of the dispatcher, \<open>getLobbyInfo\<close> and writes by the game,
  no function reads or writes the store of lobby objects: it commutes with any change
  of the store.
\<close>

lemma objs_out:
  "ws_update f0 (objs_update g s) = objs_update g (ws_update f0 s)"
  "connected_update f1 (objs_update g s) = objs_update g (connected_update f1 s)"
  "playerId_update f2 (objs_update g s) = objs_update g (playerId_update f2 s)"
  "username_update f3 (objs_update g s) = objs_update g (username_update f3 s)"
  "gameId_update f4 (objs_update g s) = objs_update g (gameId_update f4 s)"
  "roomId_update f5 (objs_update g s) = objs_update g (roomId_update f5 s)"
  "players_update f6 (objs_update g s) = objs_update g (players_update f6 s)"
  "lobbyInfo_update f7 (objs_update g s) = objs_update g (lobbyInfo_update f7 s)"
  "isHost_update f8 (objs_update g s) = objs_update g (isHost_update f8 s)"
  "handlers_update f9 (objs_update g s) = objs_update g (handlers_update f9 s)"
  "sockets_update f10 (objs_update g s) = objs_update g (sockets_update f10 s)"
  "timers_update f11 (objs_update g s) = objs_update g (timers_update f11 s)"
  "calls_update f12 (objs_update g s) = objs_update g (calls_update f12 s)"
  "microtasks_update f13 (objs_update g s) = objs_update g (microtasks_update f13 s)"
  "invoked_update f14 (objs_update g s) = objs_update g (invoked_update f14 s)"
  "console_update f15 (objs_update g s) = objs_update g (console_update f15 s)"
  "returned_update f16 (objs_update g s) = objs_update g (returned_update f16 s)"
  "lorlServerUrl_update f17 (objs_update g s) = objs_update g (lorlServerUrl_update f17 s)"
  "lorlGameId_update f18 (objs_update g s) = objs_update g (lorlGameId_update f18 s)"
  "inherited_update f19 (objs_update g s) = objs_update g (inherited_update f19 s)"
  "plain_update f20 (objs_update g s) = objs_update g (plain_update f20 s)"
  by simp_all

lemma settle_store [simp]: "settle c out (objs_update g s) = objs_update g (settle c out s)"
  by (simp add: settle_def)

lemma off_store [simp]: "off e h (objs_update g s) = objs_update g (off e h s)"
  by (simp add: off_def split: option.splits)

lemma on_store [simp]: "on e h (objs_update g s) = objs_update g (on e h s)"
  by (simp add: on_def handlers_for_def)

lemma send_store [simp]: "send m (objs_update g s) = objs_update g (send m s)"
  by (simp add: send_def split: option.splits)

lemma close_socket_store [simp]: "close_socket i (objs_update g s) = objs_update g (close_socket i s)"
  by (auto simp add: close_socket_def)

lemma new_socket_store [simp]: "new_socket u h (objs_update g s) = objs_update g (new_socket u h s)"
  by (simp add: new_socket_def)

lemma settle_open_store [simp]: "settle_open c r (objs_update g s) = objs_update g (settle_open c r s)"
  by (simp add: settle_open_def)

lemma clearTimeout_store [simp]: "clearTimeout t (objs_update g s) = objs_update g (clearTimeout t s)"
  by (simp add: clearTimeout_def)

lemma set_ready_store [simp]: "set_ready i r (objs_update g s) = objs_update g (set_ready i r s)"
  by (simp add: set_ready_def)

lemma set_hooks_store [simp]: "set_hooks i h (objs_update g s) = objs_update g (set_hooks i h s)"
  by (simp add: set_hooks_def)

lemma chain_store [simp]: "chain c r (objs_update g s) = objs_update g (chain c r s)"
  by (simp add: chain_def)

lemma new_call_store [simp]: "new_call k (objs_update g s) = objs_update g (new_call k s)"
  by (simp add: new_call_def)

lemma assign_playerId_store [simp]: "assign_playerId rnd (objs_update g s) = objs_update g (assign_playerId rnd s)"
  by (simp add: assign_playerId_def)

lemma handlers_for_store [simp]: "handlers_for e (objs_update g s) = handlers_for e s"
  by (simp add: handlers_for_def)

lemma set_player_store [simp]: "set_player k p (objs_update g s) = objs_update g (set_player k p s)"
  by (simp add: set_player_def)

lemma inherited_data_store [simp]: "inherited_data k (objs_update g s) = inherited_data k s"
  by (simp add: inherited_data_def)

lemma call_handler_store:
  "call_handler h ev (objs_update g s) =
     (objs_update g (fst (call_handler h ev s)), snd (call_handler h ev s))"
  by (cases h) (simp_all add: objs_out)

lemma guarded_store:
  "guarded ev h (objs_update g s) = (objs_update g (fst (guarded ev h s)), snd (guarded ev h s))"
  by (cases "call_handler h ev s")
     (auto simp add: guarded_def call_handler_store objs_out split: option.splits)

lemma forEach_store:
  "forEach (guarded ev) hs (objs_update g s) =
     (objs_update g (fst (forEach (guarded ev) hs s)), snd (forEach (guarded ev) hs s))"
proof (induction hs arbitrary: s)
  case Nil
  show ?case by simp
next
  case (Cons h hs)
  obtain s1 where g: "guarded ev h s = (s1, None)"
    using guarded_effect(1)[of ev h s] by (cases "guarded ev h s") auto
  show ?case using Cons.IH[of s1] g by (simp add: guarded_store)
qed

lemma emit_store [simp]: "emit ev (objs_update g s) = objs_update g (emit ev s)"
  by (simp add: emit_def emit_try_def forEach_store)

lemma connect_store [simp]:
  "connect rnd u rid uname (objs_update g s) = objs_update g (connect rnd u rid uname s)"
  by (simp add: connect_def Let_def objs_out)

lemma continue_call_store [simp]:
  "continue_call c k (objs_update g s) = objs_update g (continue_call c k s)"
  by (cases k) (simp_all add: Let_def objs_out)

lemma react_store [simp]: "react rnd r out (objs_update g s) = objs_update g (react rnd r out s)"
  by (cases r; cases out) (simp_all add: objs_out)

lemma run_task_store [simp]: "run_task rnd t (objs_update g s) = objs_update g (run_task rnd t s)"
proof (cases t)
  case (Continue c r)
  then show ?thesis by (cases r) simp_all
next
  case (React c)
  then show ?thesis by simp
qed

lemma drain_store: "drain n rnd (objs_update g s) = objs_update g (drain n rnd s)"
proof (induction n arbitrary: s)
  case 0
  show ?case by simp
next
  case (Suc n)
  show ?case
  proof (cases "microtasks s")
    case Nil
    then show ?thesis by simp
  next
    case (Cons t ts)
    then show ?thesis using Suc.IH[of "run_task rnd t (s\<lparr> microtasks := ts \<rparr>)"]
      by (simp add: objs_out)
  qed
qed

lemma work_store [simp]: "work (objs_update g s) = work s"
  by (simp add: work_def)

lemma openWS_store [simp]: "openWS u c (objs_update g s) = objs_update g (openWS u c s)"
  by (auto simp add: openWS_def ws_open_def Let_def objs_out split: option.splits)

lemma createLobby_store [simp]:
  "createLobby rnd u gid lid lname maxp uname (objs_update g s) =
     objs_update g (createLobby rnd u gid lid lname maxp uname s)"
  by (simp add: createLobby_def Let_def objs_out)

lemma joinLobby_store [simp]:
  "joinLobby rnd u gid lid uname (objs_update g s) = objs_update g (joinLobby rnd u gid lid uname s)"
  by (simp add: joinLobby_def Let_def objs_out)

lemma listLobbies_store [simp]:
  "listLobbies u gid (objs_update g s) = objs_update g (listLobbies u gid s)"
  by (simp add: listLobbies_def objs_out)

lemma init_online_store [simp]:
  "init_online rnd u rid uname ctx (objs_update g s) = objs_update g (init_online rnd u rid uname ctx s)"
  by (simp add: init_online_def objs_out split: option.splits lobby_ctx.splits)

lemma init_store [simp]:
  "init rnd u rid uname gid ctx (objs_update g s) = objs_update g (init rnd u rid uname gid ctx s)"
  by (simp add: init_def Let_def objs_out)

lemma onopen_store [simp]: "onopen i h (objs_update g s) = objs_update g (onopen i h s)"
  by (cases h) (simp_all add: Let_def objs_out)

lemma onclose_store [simp]: "onclose h (objs_update g s) = objs_update g (onclose h s)"
  by (cases h) (simp_all add: objs_out)

lemma onerror_store [simp]: "onerror i h (objs_update g s) = objs_update g (onerror i h s)"
  by (cases h) (simp_all add: objs_out)

lemma fire_store [simp]: "fire t (objs_update g s) = objs_update g (fire t s)"
  by (cases t) (simp_all add: objs_out)

lemma mutate_store:
  "r \<in> set (returned s) \<Longrightarrow> r < length (objs s) \<Longrightarrow>
   mutate r h s = objs_update (\<lambda>ob. ob[r := h (ob ! r)]) s"
  by (simp add: mutate_def)

lemma alloc_written:
  "r < length (objs s) \<Longrightarrow>
   alloc ob (objs_update (\<lambda>ob. ob[r := h (ob ! r)]) s) =
   objs_update (\<lambda>ob. ob[r := h (ob ! r)]) (alloc ob s)"
  by (simp add: alloc_def list_update_append1 nth_append)

lemma handleMessage_written:
  assumes "r < length (objs s)" and "lobbyInfo s \<noteq> Some r"
  shows "handleMessage msg (objs_update (\<lambda>ob. ob[r := h (ob ! r)]) s) =
         objs_update (\<lambda>ob. ob[r := h (ob ! r)]) (handleMessage msg s)"
proof (cases msg)
  case (Lobby_created lid lname pub maxp pid)
  then show ?thesis using assms(1) by (simp add: Let_def alloc_written objs_out)
next
  case (Lobby_state lid lname pub owner maxp ps)
  then show ?thesis using assms(1) by (simp add: Let_def alloc_written objs_out)
next
  case (Lobby_owner_changed newOwnerId)
  show ?thesis
  proof (cases "lobbyInfo s")
    case None
    then show ?thesis using Lobby_owner_changed by (simp add: objs_out)
  next
    case (Some a)
    then have "a \<noteq> r" using assms(2) by simp
    then have "(objs s)[r := h (objs s ! r), a := (objs s ! a)\<lparr> ownerId := Some newOwnerId \<rparr>] =
        (objs s)[a := (objs s ! a)\<lparr> ownerId := Some newOwnerId \<rparr>, r := h (objs s ! r)]"
      by (simp add: list_update_swap)
    then show ?thesis using Lobby_owner_changed Some \<open>a \<noteq> r\<close> by (simp add: objs_out)
  qed
next
  case (State_update pid uname d)
  then show ?thesis by (simp add: objs_out split: option.splits)
qed (simp_all add: objs_out)

lemma store_ok_cong:
  "lobbyInfo s' = lobbyInfo s \<Longrightarrow> objs s' = objs s \<Longrightarrow> returned s' = returned s \<Longrightarrow>
   store_ok s' = store_ok s"
  by (simp add: store_ok_def cong: option.case_cong)

lemma openWS_store_frame [simp]:
  "lobbyInfo (openWS u c s) = lobbyInfo s" "objs (openWS u c s) = objs s"
  "returned (openWS u c s) = returned s"
  by (simp_all add: openWS_def Let_def split: option.splits)

lemma calls_store_frame [simp]:
  "lobbyInfo (createLobby rnd u gid lid lname maxp uname s) = lobbyInfo s"
  "objs (createLobby rnd u gid lid lname maxp uname s) = objs s"
  "returned (createLobby rnd u gid lid lname maxp uname s) = returned s"
  "lobbyInfo (joinLobby rnd u gid lobby uname s) = lobbyInfo s"
  "objs (joinLobby rnd u gid lobby uname s) = objs s"
  "returned (joinLobby rnd u gid lobby uname s) = returned s"
  "lobbyInfo (listLobbies u gid s) = lobbyInfo s"
  "objs (listLobbies u gid s) = objs s"
  "returned (listLobbies u gid s) = returned s"
  by (simp_all add: createLobby_def joinLobby_def listLobbies_def Let_def)

lemma init_store_frame [simp]:
  "lobbyInfo (init rnd su rid uname gid ctx s) = lobbyInfo s"
  "objs (init rnd su rid uname gid ctx s) = objs s"
  "returned (init rnd su rid uname gid ctx s) = returned s"
  by (simp_all add: init_def init_online_def Let_def split: option.splits lobby_ctx.splits)

lemma returned_handleMessage [simp]: "returned (handleMessage msg s) = returned s"
  by (cases msg) (simp_all add: Let_def split: option.splits)

lemma store_ok_handleMessage: "store_ok s \<Longrightarrow> store_ok (handleMessage msg s)"
  by (cases msg)
     (auto simp add: store_ok_def alloc_def Let_def list_all_iff less_Suc_eq split: option.splits)

lemma store_ok_run:
  assumes w: "store_ok s"
  shows "store_ok (run rnd inp s) \<and> set (returned s) \<subseteq> set (returned (run rnd inp s))"
proof (cases inp)
  case CallLeaveLobby
  then show ?thesis using w
    by (auto simp add: leaveLobby_def store_ok_def split: option.splits)
next
  case CallGetLobbyInfo
  then show ?thesis using w
    by (auto simp add: getLobbyInfo_def store_ok_def alloc_def list_all_iff less_Suc_eq
        split: option.splits)
next
  case (CallConnect u rid uname)
  then show ?thesis using w store_ok_cong[of "connect rnd u rid uname s" s] by simp
next
  case CallDisconnect
  then show ?thesis using w
    by (auto simp add: disconnect_def store_ok_def split: option.splits)
next
  case (CallInit u rid uname gid ctx)
  then show ?thesis using w store_ok_cong[of "init rnd u rid uname gid ctx s" s] by simp
next
  case (Write r g)
  then show ?thesis using w
    by (auto simp add: mutate_def store_ok_def split: option.splits)
next
  case (SockOpen i)
  have "store_ok (onopen i h x) \<and> returned (onopen i h x) = returned x" if "store_ok x" for h x
    using that store_ok_cong[of "onopen i h x" x] by (cases h) (simp_all add: Let_def)
  then show ?thesis using SockOpen w store_ok_cong[of "set_ready i OPEN s" s] by simp
next
  case (SockMessage i fr)
  have "store_ok (onmessage h fr x) \<and> returned (onmessage h fr x) = returned x" if "store_ok x" for h x
    using that by (cases h; cases fr) (simp_all add: store_ok_handleMessage)
  then show ?thesis using SockMessage w by simp
next
  case (SockError i)
  have "store_ok (onerror i h x) \<and> returned (onerror i h x) = returned x" if "store_ok x" for h x
    using that store_ok_cong[of "onerror i h x" x] by (cases h) simp_all
  then show ?thesis using SockError w store_ok_cong[of "set_ready i CLOSED s" s] by simp
next
  case (SockClose i)
  have "store_ok (onclose h x) \<and> returned (onclose h x) = returned x" if "store_ok x" for h x
    using that by (cases h) (auto simp add: store_ok_def split: option.splits)
  then show ?thesis using SockClose w store_ok_cong[of "set_ready i CLOSED s" s] by simp
next
  case (Timeout d t)
  have "store_ok (fire t x) \<and> returned (fire t x) = returned x" if "store_ok x" for x
    using that store_ok_cong[of "fire t x" x] by (cases t) simp_all
  then show ?thesis using Timeout w store_ok_cong[of "clearTimeout (d, t) s" s] by simp
next
  case (CallOn e n t)
  then show ?thesis using w store_ok_cong[of "on e (UserFn n t) s" s] by simp
next
  case (CallOff e n t)
  then show ?thesis using w store_ok_cong[of "off e (UserFn n t) s" s] by simp
next
  case (CallCreateLobby u gid lid lname maxp uname)
  then show ?thesis using w store_ok_cong[of "createLobby rnd u gid lid lname maxp uname s" s] by simp
next
  case (CallJoinLobby u gid lid uname)
  then show ?thesis using w store_ok_cong[of "joinLobby rnd u gid lid uname s" s] by simp
next
  case (CallListLobbies u gid)
  then show ?thesis using w store_ok_cong[of "listLobbies u gid s" s] by simp
next
  case (CallKickFromLobby p)
  then show ?thesis using w store_ok_cong[of "send (Send_lobby_kick p) s" s]
    by (simp add: kickFromLobby_def)
next
  case CallCloseLobby
  then show ?thesis using w store_ok_cong[of "send Send_lobby_close s" s]
    by (simp add: closeLobby_def)
next
  case (CallUpdateState d)
  then show ?thesis using w store_ok_cong[of "send (Send_state_update (playerId s) d) s" s]
    by (simp add: updateState_def)
next
  case (CallSendMessage ev d)
  then show ?thesis using w store_ok_cong[of "send (Send_custom (playerId s) ev d) s" s]
    by (simp add: sendMessage_def)
qed

lemma store_ok_dispatch:
  "store_ok s \<Longrightarrow>
   store_ok (dispatch rnd inp s) \<and> set (returned s) \<subseteq> set (returned (dispatch rnd inp s))"
  using store_ok_run[of s rnd inp]
    store_ok_cong[of "drain (work (run rnd inp s)) rnd (run rnd inp s)" "run rnd inp s"]
  by (simp add: dispatch_def Let_def)

lemma store_ok_dispatch_each: "store_ok s \<Longrightarrow> store_ok (dispatch_each steps s)"
  by (induction steps arbitrary: s) (auto simp add: store_ok_dispatch)

lemma store_ok_initial: "store_ok initial"
  by (simp add: store_ok_def initial_def)

lemma run_written:
  assumes w: "store_ok s" and r: "r \<in> set (returned s)" and n: "\<not> writes r inp"
  shows "run rnd inp (objs_update (\<lambda>ob. ob[r := h (ob ! r)]) s) =
         objs_update (\<lambda>ob. ob[r := h (ob ! r)]) (run rnd inp s)"
proof -
  have l: "r < length (objs s)" using w r by (simp add: store_ok_def list_all_iff)
  have a: "lobbyInfo s \<noteq> Some r" using w r by (auto simp add: store_ok_def)
  show ?thesis
  proof (cases inp)
    case CallLeaveLobby
    then show ?thesis by (simp add: leaveLobby_def objs_out)
  next
    case CallGetLobbyInfo
    show ?thesis
    proof (cases "lobbyInfo s")
      case None
      then show ?thesis using CallGetLobbyInfo by (simp add: getLobbyInfo_def)
    next
      case (Some b)
      then have "b \<noteq> r" using a by simp
      then show ?thesis using CallGetLobbyInfo Some l
        by (simp add: getLobbyInfo_def alloc_written objs_out)
    qed
  next
    case CallDisconnect
    then show ?thesis by (simp add: disconnect_def objs_out split: option.splits)
  next
    case (Write r' g)
    then have d: "r' \<noteq> r" using n by simp
    then have "(objs s)[r := h (objs s ! r), r' := g (objs s ! r')] =
               (objs s)[r' := g (objs s ! r'), r := h (objs s ! r)]"
      by (simp add: list_update_swap)
    then show ?thesis using Write d by (simp add: mutate_def)
  next
    case (SockMessage i fr)
    have "onmessage hk fr (objs_update (\<lambda>ob. ob[r := h (ob ! r)]) s) =
          objs_update (\<lambda>ob. ob[r := h (ob ! r)]) (onmessage hk fr s)" for hk
      using handleMessage_written[OF l a] by (cases hk; cases fr) simp_all
    then show ?thesis using SockMessage by simp
  qed (simp_all add: kickFromLobby_def closeLobby_def updateState_def sendMessage_def objs_out)
qed

lemma dispatch_written:
  assumes "store_ok s" and "r \<in> set (returned s)" and "\<not> writes r inp"
  shows "dispatch rnd inp (mutate r h s) = mutate r h (dispatch rnd inp s)"
proof -
  have l: "r < length (objs s)" using assms(1,2) by (simp add: store_ok_def list_all_iff)
  have d: "store_ok (dispatch rnd inp s) \<and> r \<in> set (returned (dispatch rnd inp s))"
    using store_ok_dispatch[OF assms(1), of rnd inp] assms(2) by auto
  then have l': "r < length (objs (dispatch rnd inp s))" by (simp add: store_ok_def list_all_iff)
  have "dispatch rnd inp (objs_update (\<lambda>ob. ob[r := h (ob ! r)]) s) =
        objs_update (\<lambda>ob. ob[r := h (ob ! r)]) (dispatch rnd inp s)"
    using run_written[OF assms, of rnd h] by (simp add: dispatch_def Let_def drain_store)
  then show ?thesis
    using mutate_store[OF assms(2) l, of h] mutate_store[OF conjunct2[OF d] l', of h] by simp
qed

lemma in_lobby_state:
  "lobbyInfo in_lobby = Some 0" "returned in_lobby = [1]"
  "objs in_lobby =
     [\<lparr> lobbyId = ''L1'', lobbyName = ''Arena'', isPublic = False, ownerId = Some ''p_ann'',
        maxPlayers = 4 \<rparr>,
      \<lparr> lobbyId = ''L1'', lobbyName = ''Arena'', isPublic = False, ownerId = Some ''p_ann'',
        maxPlayers = 4 \<rparr>]"
  "fst (getLobbyInfo (dispatch_all ''r'' joined_run initial)) = Some 1"
  by (simp_all add: in_lobby_def joined_run_def sdk_defs drain_unfold ann_def)

section \<open>The microtask queue is emptied\<close>

lemma filter_update_count:
  assumes "c < length xs"
  shows "length (filter P (xs[c := y])) + (if P (xs ! c) then 1 else 0) =
         length (filter P xs) + (if P y then 1 else 0)"
proof -
  have a: "xs = take c xs @ xs ! c # drop (Suc c) xs" using assms by (rule id_take_nth_drop)
  have b: "xs[c := y] = take c xs @ y # drop (Suc c) xs" using assms by (rule upd_conv_take_nth_drop)
  have "length (filter P xs) =
        length (filter P (take c xs)) + (if P (xs ! c) then 1 else 0) + length (filter P (drop (Suc c) xs))"
    by (subst a) simp
  moreover have "length (filter P (xs[c := y])) =
        length (filter P (take c xs)) + (if P y then 1 else 0) + length (filter P (drop (Suc c) xs))"
    by (subst b) simp
  ultimately show ?thesis by simp
qed

lemma work_cong: "calls s' = calls s \<Longrightarrow> microtasks s' = microtasks s \<Longrightarrow> work s' = work s"
  by (simp add: work_def)

lemma work_settle: "\<not> pending out \<Longrightarrow> work (settle c out s) \<le> work s"
proof (cases "c < length (calls s) \<and> pending (outcome (calls s ! c))")
  case False
  then show ?thesis by (auto simp add: settle_def)
next
  case True
  assume n: "\<not> pending out"
  let ?y = "(calls s ! c)\<lparr> outcome := out \<rparr>"
  have 1: "length (filter (\<lambda>c. pending (outcome c)) ((calls s)[c := ?y])) + 1 =
           length (filter (\<lambda>c. pending (outcome c)) (calls s))"
    using filter_update_count[of c "calls s" "\<lambda>c. pending (outcome c)" ?y] True n by simp
  have 2: "length (filter (\<lambda>c. opened c = None) ((calls s)[c := ?y])) =
           length (filter (\<lambda>c. opened c = None) (calls s))"
    using filter_update_count[of c "calls s" "\<lambda>c. opened c = None" ?y] True by simp
  show ?thesis using True 1 2 by (simp add: settle_def work_def)
qed

lemma work_settle_open: "work (settle_open c r s) \<le> work s"
proof (cases "c < length (calls s) \<and> opened (calls s ! c) = None")
  case False
  then show ?thesis by (auto simp add: settle_open_def)
next
  case True
  let ?y = "(calls s ! c)\<lparr> opened := Some (case r of None \<Rightarrow> True | Some e \<Rightarrow> False) \<rparr>"
  have 1: "length (filter (\<lambda>c. opened c = None) ((calls s)[c := ?y])) + 1 =
           length (filter (\<lambda>c. opened c = None) (calls s))"
    using filter_update_count[of c "calls s" "\<lambda>c. opened c = None" ?y] True by simp
  have 2: "length (filter (\<lambda>c. pending (outcome c)) ((calls s)[c := ?y])) =
           length (filter (\<lambda>c. pending (outcome c)) (calls s))"
    using filter_update_count[of c "calls s" "\<lambda>c. pending (outcome c)" ?y] True by simp
  show ?thesis using True 1 2 by (simp add: settle_open_def work_def)
qed

lemma work_prims [simp]:
  "work (on e h s) = work s" "work (off e h s) = work s" "work (send m s) = work s"
  "work (close_socket i s) = work s" "work (new_socket u hk s) = work s"
  "work (clearTimeout t s) = work s" "work (set_ready i r s) = work s"
  "work (set_hooks i hk s) = work s" "work (alloc ob s) = work s"
  "work (assign_playerId rnd s) = work s" "work (connect rnd u rid uname s) = work s"
  "work (s\<lparr> invoked := a1 \<rparr>) = work s" "work (s\<lparr> console := a2 \<rparr>) = work s"
  "work (s\<lparr> timers := a3 \<rparr>) = work s"
  by (rule work_cong; simp)+

lemma work_call_handler: "work (fst (call_handler h ev s)) \<le> work s"
proof (cases h)
  case (UserFn n t)
  then show ?thesis by simp
next
  case (OnCreated c)
  then show ?thesis
    using work_settle[of "Resolved ev" c "off ''error'' (OnErrCreate c) (off ''lobbyCreated'' (OnCreated c)
          (s\<lparr> invoked := invoked s @ [(OnCreated c, ev)] \<rparr>))"] by simp
next
  case (OnErrCreate c)
  then show ?thesis
    using work_settle[of "Rejected ev" c "off ''error'' (OnErrCreate c) (off ''lobbyCreated'' (OnCreated c)
          (s\<lparr> invoked := invoked s @ [(OnErrCreate c, ev)] \<rparr>))"] by simp
next
  case (OnJoined c)
  then show ?thesis
    using work_settle[of "Resolved ev" c "off ''error'' (OnErrJoin c) (off ''lobbyJoined'' (OnJoined c)
          (s\<lparr> invoked := invoked s @ [(OnJoined c, ev)] \<rparr>))"] by simp
next
  case (OnErrJoin c)
  then show ?thesis
    using work_settle[of "Rejected ev" c "off ''error'' (OnErrJoin c) (off ''lobbyJoined'' (OnJoined c)
          (s\<lparr> invoked := invoked s @ [(OnErrJoin c, ev)] \<rparr>))"] by simp
next
  case (OnList c)
  then show ?thesis
    using work_settle[of "Resolved ev" c "off ''lobbyList'' (OnList c)
          (s\<lparr> invoked := invoked s @ [(OnList c, ev)] \<rparr>)"] by simp
qed

lemma work_guarded: "work (fst (guarded ev h s)) \<le> work s"
  using work_call_handler[of h ev s]
  by (cases "call_handler h ev s") (auto simp add: guarded_def split: option.splits)

lemma work_forEach: "work (fst (forEach (guarded ev) hs s)) \<le> work s"
proof (induction hs arbitrary: s)
  case Nil
  show ?case by simp
next
  case (Cons h hs)
  obtain s1 where g: "guarded ev h s = (s1, None)"
    using guarded_effect(1)[of ev h s] by (cases "guarded ev h s") auto
  have "work s1 \<le> work s" using work_guarded[of ev h s] g by simp
  then show ?case using Cons.IH[of s1] g by simp
qed

lemma work_emit: "work (emit ev s) \<le> work s"
  by (simp add: emit_def emit_try_def work_forEach)

lemma work_continue_call: "work (continue_call c k s) \<le> work s"
  by (cases k) (simp_all add: Let_def work_emit)

lemma work_react: "work (react rnd r out s) \<le> work s"
proof (cases r)
  case NoReaction
  then show ?thesis by simp
next
  case (InitChain u rid uname)
  have "work (emit (Ready True) (connect rnd u rid uname (s\<lparr> console := x \<rparr>))) \<le> work s" for x
    using work_emit[of "Ready True" "connect rnd u rid uname (s\<lparr> console := x \<rparr>)"] by simp
  then show ?thesis using InitChain work_emit[of "Ready True" s] by (cases out) simp_all
qed

lemma work_run_task: "work (run_task rnd t s) \<le> work s"
proof (cases t)
  case (Continue c r)
  then show ?thesis by (cases r) (simp_all add: work_continue_call work_settle)
next
  case (React c)
  then show ?thesis by (simp add: work_react)
qed



section \<open>Properties kept by the event emitter\<close>

lemma forEach_inv:
  assumes "\<And>x s. P s \<Longrightarrow> P (fst (f x s))" and "P s"
  shows "P (fst (forEach f xs s))"
  using assms(2)
proof (induction xs arbitrary: s)
  case Nil
  then show ?case by simp
next
  case (Cons x xs)
  obtain s1 r where g: "f x s = (s1, r)" by (cases "f x s")
  have "P (fst (f x s))" using Cons.prems by (rule assms(1))
  then have "P s1" using g by simp
  then have "P (fst (forEach f xs s1))" by (rule Cons.IH)
  then show ?case using g \<open>P s1\<close> by (cases r) simp_all
qed

lemma call_handler_inv:
  assumes "\<And>s x. P s \<Longrightarrow> P (s\<lparr> invoked := x \<rparr>)"
    and "\<And>s c out. P s \<Longrightarrow> P (settle c out s)"
    and "\<And>s e h. P s \<Longrightarrow> P (off e h s)"
    and "P s"
  shows "P (fst (call_handler h ev s))"
  using assms by (cases h) auto

lemma emit_inv:
  assumes "\<And>h s. P s \<Longrightarrow> P (fst (call_handler h ev s))"
    and "\<And>s l. P s \<Longrightarrow> P (s\<lparr> console := l \<rparr>)"
    and "P s"
  shows "P (emit ev s)"
proof -
  have g: "P (fst (guarded ev h s))" if "P s" for h s
  proof (cases "call_handler h ev s")
    case (Pair s1 r)
    have "P (fst (call_handler h ev s))" using that by (rule assms(1))
    then have "P s1" using Pair by simp
    then show ?thesis using Pair assms(2)[of s1] by (cases r) (simp_all add: guarded_def)
  qed
  show ?thesis unfolding emit_def emit_try_def
    by (rule forEach_inv[where P = P]) (use g assms(3) in auto)
qed

section \<open>The kind of a call\<close>

lemma kinds_prims [simp]:
  "map kind (calls (settle_open c r s)) = map kind (calls s)"
  "map kind (calls (chain c x s)) = map kind (calls s)"
  by (simp_all add: settle_open_def chain_def map_update list_update_same_conv)

lemma continue_call_kinds [simp]: "map kind (calls (continue_call c k s)) = map kind (calls s)"
  by (cases k) (simp_all add: Let_def emit_kinds)

lemma react_kinds [simp]: "map kind (calls (react rnd r out s)) = map kind (calls s)"
  by (cases r; cases out) (simp_all add: emit_kinds)

lemma run_task_kinds [simp]: "map kind (calls (run_task rnd t s)) = map kind (calls s)"
  by (rule run_task_frame_gen[where g = "\<lambda>s. map kind (calls s)"]) simp_all

lemma drain_kinds [simp]: "map kind (calls (drain n rnd s)) = map kind (calls s)"
  by (rule drain_frame_gen[where g = "\<lambda>s. map kind (calls s)"]) simp_all

lemma handleMessage_kinds [simp]: "map kind (calls (handleMessage msg s)) = map kind (calls s)"
  by (cases msg) (simp_all add: emit_kinds Let_def split: option.splits)

lemma openWS_kinds [simp]: "map kind (calls (openWS u c s)) = map kind (calls s)"
  by (simp add: openWS_def Let_def split: option.splits)

lemma new_kinds:
  "map kind (calls (createLobby rnd u gid lid lname maxp uname s)) =
     map kind (calls s) @ [Create gid lid (case lname of None \<Rightarrow> ''My Lobby'' | Some n \<Rightarrow> n)
                             (case maxp of None \<Rightarrow> 8 | Some m \<Rightarrow> m)]"
  "map kind (calls (joinLobby rnd u gid lobby uname s)) = map kind (calls s) @ [Join gid lobby]"
  "map kind (calls (listLobbies u gid s)) = map kind (calls s) @ [List gid]"
  by (simp_all add: createLobby_def joinLobby_def listLobbies_def Let_def new_call_def)

lemma init_kinds: "\<exists>ks. map kind (calls (init rnd u rid uname gid ctx s)) = map kind (calls s) @ ks"
  by (simp add: init_def init_online_def Let_def emit_kinds new_kinds
      split: option.splits lobby_ctx.splits)

lemma run_kinds: "\<exists>ks. map kind (calls (run rnd inp s)) = map kind (calls s) @ ks"
proof (cases inp)
  case (CallInit u rid uname gid ctx)
  then show ?thesis using init_kinds[of rnd u rid uname gid ctx s] by simp
next
  case (SockOpen i)
  have "map kind (calls (onopen i h x)) = map kind (calls x)" for h x
    by (cases h) (simp_all add: Let_def emit_kinds)
  then show ?thesis using SockOpen by simp
next
  case (SockMessage i fr)
  have "map kind (calls (onmessage h fr x)) = map kind (calls x)" for h x
    by (cases h; cases fr) simp_all
  then show ?thesis using SockMessage by simp
next
  case (SockError i)
  have "map kind (calls (onerror i h x)) = map kind (calls x)" for h x
    by (cases h) (simp_all add: emit_kinds)
  then show ?thesis using SockError by simp
next
  case (SockClose i)
  have "map kind (calls (onclose h x)) = map kind (calls x)" for h x
    by (cases h) (simp_all add: emit_kinds)
  then show ?thesis using SockClose by simp
next
  case (Timeout d t)
  have "map kind (calls (fire t x)) = map kind (calls x)" for x
    by (cases t) simp_all
  then show ?thesis using Timeout by simp
qed (simp_all add: new_kinds leaveLobby_def kickFromLobby_def closeLobby_def getLobbyInfo_def
      disconnect_def updateState_def sendMessage_def mutate_def split: option.splits)

lemma dispatch_kinds:
  "\<exists>ks. map kind (calls (dispatch rnd inp s)) = map kind (calls s) @ ks"
  using run_kinds[of rnd inp s] by (simp add: dispatch_def Let_def)

lemma kinds_kept:
  assumes "map kind (calls s') = map kind (calls s) @ ks" and "c < length (calls s)"
  shows "c < length (calls s') \<and> kind (calls s' ! c) = kind (calls s ! c)"
proof -
  have l: "length (calls s') = length (calls s) + length ks"
    using arg_cong[OF assms(1), of length] by simp
  then have c: "c < length (calls s')" using assms(2) by simp
  have "map kind (calls s') ! c = map kind (calls s) ! c"
    using assms by (simp add: nth_append)
  then show ?thesis using c assms(2) by simp
qed

lemma dispatch_kind:
  "c < length (calls s) \<Longrightarrow>
   c < length (calls (dispatch rnd inp s)) \<and> kind (calls (dispatch rnd inp s) ! c) = kind (calls s ! c)"
  using dispatch_kinds[of rnd inp s] kinds_kept by blast

section \<open>Closures that resolve\<close>

lemma matched_cong:
  assumes "handlers s' = handlers s" and "map kind (calls s') = map kind (calls s)"
    and "timers s' = timers s"
  shows "matched s' = matched s"
proof -
  have k: "length (calls s') = length (calls s) \<and>
      (\<forall>c < length (calls s). kind (calls s' ! c) = kind (calls s ! c))"
    using kinds_nth[OF assms(2)] .
  have h: "handlers_for e s' = handlers_for e s" for e using assms(1) by (simp add: handlers_for_def)
  have e1: "(c < length (calls s') \<and> e = resolving_event (kind (calls s' ! c))) =
            (c < length (calls s) \<and> e = resolving_event (kind (calls s ! c)))" for c e
    using k by auto
  have e2: "(c < length (calls s') \<and> is_List (kind (calls s' ! c))) =
            (c < length (calls s) \<and> is_List (kind (calls s ! c)))" for c
    using k by auto
  show ?thesis by (simp add: matched_def h assms(3) e1 e2)
qed

lemma matched_upd [simp]:
  "matched (s\<lparr> players := a1 \<rparr>) = matched s" "matched (s\<lparr> lobbyInfo := a2 \<rparr>) = matched s"
  "matched (s\<lparr> isHost := a3 \<rparr>) = matched s" "matched (s\<lparr> objs := a4 \<rparr>) = matched s"
  "matched (s\<lparr> console := a5 \<rparr>) = matched s" "matched (s\<lparr> connected := a6 \<rparr>) = matched s"
  "matched (s\<lparr> microtasks := a7 \<rparr>) = matched s" "matched (s\<lparr> ws := a8 \<rparr>) = matched s"
  "matched (s\<lparr> sockets := a9 \<rparr>) = matched s" "matched (s\<lparr> playerId := b1 \<rparr>) = matched s"
  "matched (s\<lparr> username := b2 \<rparr>) = matched s" "matched (s\<lparr> gameId := b3 \<rparr>) = matched s"
  "matched (s\<lparr> roomId := b4 \<rparr>) = matched s" "matched (s\<lparr> returned := b5 \<rparr>) = matched s"
  "matched (s\<lparr> lorlServerUrl := b6 \<rparr>) = matched s" "matched (s\<lparr> lorlGameId := b7 \<rparr>) = matched s"
  "matched (s\<lparr> invoked := b8 \<rparr>) = matched s" "matched (s\<lparr> plain := b9 \<rparr>) = matched s"
  "matched (s\<lparr> inherited := c1 \<rparr>) = matched s"
  by (rule matched_cong; simp)+

lemma matched_prims [simp]:
  "matched (send m s) = matched s" "matched (close_socket i s) = matched s"
  "matched (new_socket u h s) = matched s" "matched (set_ready i r s) = matched s"
  "matched (set_hooks i h s) = matched s" "matched (alloc ob s) = matched s"
  "matched (assign_playerId rnd s) = matched s" "matched (set_player k p s) = matched s"
  "matched (settle c out s) = matched s" "matched (settle_open c ro s) = matched s"
  "matched (chain c x s) = matched s"
  by (rule matched_cong; simp)+

lemma matched_connect [simp]: "matched (connect rnd u rid uname s) = matched s"
  by (simp add: connect_def Let_def)























section \<open>What resolves a promise\<close>


lemma settle_open_outcome [simp]:
  "outcome (calls (settle_open c' r s) ! c) = outcome (calls s ! c)"
  by (cases "c' = c") (auto simp add: settle_open_def)

lemma chain_outcome [simp]:
  "outcome (calls (chain c' r s) ! c) = outcome (calls s ! c)"
  by (cases "c' = c") (auto simp add: chain_def)




lemma resolving_event_names [simp]:
  "resolving_event k \<noteq> ''connected''" "resolving_event k \<noteq> ''ready''"
  "resolving_event k \<noteq> ''disconnected''" "resolving_event k \<noteq> ''error''"
  "''connected'' \<noteq> resolving_event k" "''ready'' \<noteq> resolving_event k"
  "''disconnected'' \<noteq> resolving_event k" "''error'' \<noteq> resolving_event k"
  by (cases k; simp)+





lemma openWS_outcome [simp]: "outcome (calls (openWS u c' s) ! c) = outcome (calls s ! c)"
  by (simp add: openWS_def Let_def split: option.splits)








lemma fresh_steps_append:
  "fresh_steps (xs @ ys) s = (fresh_steps xs s \<and> fresh_steps ys (dispatch_each xs s))"
  by (induction xs arbitrary: s) auto

section \<open>The chain of the init hook is run\<close>

lemma chain_due_cong:
  "calls s' = calls s \<Longrightarrow> microtasks s' = microtasks s \<Longrightarrow> chain_due c r s' = chain_due c r s"
  by (simp add: chain_due_def)

lemma chain_due_upd [simp]:
  "chain_due c r (s\<lparr> players := a1 \<rparr>) = chain_due c r s"
  "chain_due c r (s\<lparr> lobbyInfo := a2 \<rparr>) = chain_due c r s"
  "chain_due c r (s\<lparr> isHost := a3 \<rparr>) = chain_due c r s"
  "chain_due c r (s\<lparr> objs := a4 \<rparr>) = chain_due c r s"
  "chain_due c r (s\<lparr> console := a5 \<rparr>) = chain_due c r s"
  "chain_due c r (s\<lparr> connected := a6 \<rparr>) = chain_due c r s"
  "chain_due c r (s\<lparr> timers := a7 \<rparr>) = chain_due c r s"
  "chain_due c r (s\<lparr> ws := a8 \<rparr>) = chain_due c r s"
  "chain_due c r (s\<lparr> sockets := a9 \<rparr>) = chain_due c r s"
  "chain_due c r (s\<lparr> playerId := b1 \<rparr>) = chain_due c r s"
  "chain_due c r (s\<lparr> username := b2 \<rparr>) = chain_due c r s"
  "chain_due c r (s\<lparr> gameId := b3 \<rparr>) = chain_due c r s"
  "chain_due c r (s\<lparr> roomId := b4 \<rparr>) = chain_due c r s"
  "chain_due c r (s\<lparr> returned := b5 \<rparr>) = chain_due c r s"
  "chain_due c r (s\<lparr> lorlServerUrl := b6 \<rparr>) = chain_due c r s"
  "chain_due c r (s\<lparr> lorlGameId := b7 \<rparr>) = chain_due c r s"
  "chain_due c r (s\<lparr> invoked := b8 \<rparr>) = chain_due c r s"
  "chain_due c r (s\<lparr> plain := b9 \<rparr>) = chain_due c r s"
  "chain_due c r (s\<lparr> inherited := c1 \<rparr>) = chain_due c r s"
  "chain_due c r (s\<lparr> handlers := c2 \<rparr>) = chain_due c r s"
  by (rule chain_due_cong; simp)+

lemma chain_due_prims [simp]:
  "chain_due c r (send m s) = chain_due c r s"
  "chain_due c r (close_socket i s) = chain_due c r s"
  "chain_due c r (new_socket u h s) = chain_due c r s"
  "chain_due c r (clearTimeout t s) = chain_due c r s"
  "chain_due c r (set_ready i x s) = chain_due c r s"
  "chain_due c r (set_hooks i h s) = chain_due c r s"
  "chain_due c r (alloc ob s) = chain_due c r s"
  "chain_due c r (assign_playerId rnd s) = chain_due c r s"
  "chain_due c r (set_player k p s) = chain_due c r s"
  "chain_due c r (on e f s) = chain_due c r s"
  "chain_due c r (off e f s) = chain_due c r s"
  "chain_due c r (connect rnd u rid uname s) = chain_due c r s"
  by (rule chain_due_cong; simp)+














lemma call_handler_settled:
  "\<not> pending (outcome (calls s ! c)) \<Longrightarrow>
   outcome (calls (fst (call_handler h ev s)) ! c) = outcome (calls s ! c)"
  by (cases h) (simp_all add: settle_settled)








section \<open>A call goes on when its connection is open\<close>

text \<open>
  The rest of a call is a microtask queued when \<open>_openWS\<close> resolves; the input that
  opens the connection of a call runs it.
\<close>

lemma cont_due_cong:
  "calls s' = calls s \<Longrightarrow> microtasks s' = microtasks s \<Longrightarrow> cont_due c s' = cont_due c s"
  by (simp add: cont_due_def)

lemma cont_due_upd [simp]:
  "cont_due c (s\<lparr> players := a1 \<rparr>) = cont_due c s"
  "cont_due c (s\<lparr> lobbyInfo := a2 \<rparr>) = cont_due c s"
  "cont_due c (s\<lparr> isHost := a3 \<rparr>) = cont_due c s"
  "cont_due c (s\<lparr> objs := a4 \<rparr>) = cont_due c s"
  "cont_due c (s\<lparr> console := a5 \<rparr>) = cont_due c s"
  "cont_due c (s\<lparr> connected := a6 \<rparr>) = cont_due c s"
  "cont_due c (s\<lparr> timers := a7 \<rparr>) = cont_due c s"
  "cont_due c (s\<lparr> ws := a8 \<rparr>) = cont_due c s"
  "cont_due c (s\<lparr> sockets := a9 \<rparr>) = cont_due c s"
  "cont_due c (s\<lparr> playerId := b1 \<rparr>) = cont_due c s"
  "cont_due c (s\<lparr> username := b2 \<rparr>) = cont_due c s"
  "cont_due c (s\<lparr> gameId := b3 \<rparr>) = cont_due c s"
  "cont_due c (s\<lparr> roomId := b4 \<rparr>) = cont_due c s"
  "cont_due c (s\<lparr> returned := b5 \<rparr>) = cont_due c s"
  "cont_due c (s\<lparr> lorlServerUrl := b6 \<rparr>) = cont_due c s"
  "cont_due c (s\<lparr> lorlGameId := b7 \<rparr>) = cont_due c s"
  "cont_due c (s\<lparr> invoked := b8 \<rparr>) = cont_due c s"
  "cont_due c (s\<lparr> plain := b9 \<rparr>) = cont_due c s"
  "cont_due c (s\<lparr> inherited := c1 \<rparr>) = cont_due c s"
  "cont_due c (s\<lparr> handlers := c2 \<rparr>) = cont_due c s"
  by (rule cont_due_cong; simp)+

lemma cont_due_prims [simp]:
  "cont_due c (send m s) = cont_due c s"
  "cont_due c (close_socket i s) = cont_due c s"
  "cont_due c (new_socket u h s) = cont_due c s"
  "cont_due c (clearTimeout t s) = cont_due c s"
  "cont_due c (set_ready i x s) = cont_due c s"
  "cont_due c (set_hooks i h s) = cont_due c s"
  "cont_due c (alloc ob s) = cont_due c s"
  "cont_due c (assign_playerId rnd s) = cont_due c s"
  "cont_due c (set_player k p s) = cont_due c s"
  "cont_due c (on e f s) = cont_due c s"
  "cont_due c (off e f s) = cont_due c s"
  "cont_due c (connect rnd u rid uname s) = cont_due c s"
  by (rule cont_due_cong; simp)+

lemma cont_due_settle: "cont_due c s \<Longrightarrow> cont_due c (settle c' out s)"
  by (cases "c' = c") (auto simp add: cont_due_def settle_def)

lemma cont_due_settle_open: "cont_due c s \<Longrightarrow> cont_due c (settle_open c' x s)"
  by (cases "c' = c") (auto simp add: cont_due_def settle_open_def split: option.splits)

lemma cont_due_chain: "cont_due c s \<Longrightarrow> cont_due c (chain c' r s)"
  by (cases "c' = c") (auto simp add: cont_due_def chain_def)

lemma cont_due_new_call: "cont_due c s \<Longrightarrow> cont_due c (new_call k s)"
  by (auto simp add: cont_due_def new_call_def nth_append)

lemma cont_due_emit: "cont_due c s \<Longrightarrow> cont_due c (emit ev s)"
  by (rule emit_inv[where P = "cont_due c"], rule call_handler_inv[where P = "cont_due c"])
     (simp_all add: cont_due_settle)

lemma cont_due_handleMessage: "cont_due c s \<Longrightarrow> cont_due c (handleMessage msg s)"
  by (cases msg) (simp_all add: cont_due_emit Let_def split: option.splits)

lemma cont_due_continue_call: "cont_due c s \<Longrightarrow> cont_due c (continue_call c' k s)"
  by (cases k) (simp_all add: Let_def cont_due_emit)

lemma cont_due_react: "cont_due c s \<Longrightarrow> cont_due c (react rnd r out s)"
  by (cases r; cases out) (simp_all add: cont_due_emit)

lemma cont_due_run_task: "cont_due c s \<Longrightarrow> cont_due c (run_task rnd t s)"
proof (cases t)
  case (Continue c' x)
  assume "cont_due c s"
  then show ?thesis using Continue
    by (cases x) (simp_all add: cont_due_continue_call cont_due_settle)
next
  case (React c')
  assume "cont_due c s"
  then show ?thesis using React by (simp add: cont_due_react)
qed

lemma cont_due_openWS: "cont_due c s \<Longrightarrow> cont_due c (openWS u c' s)"
  by (simp add: openWS_def Let_def cont_due_settle_open split: option.splits)

lemma cont_due_new:
  assumes "cont_due c s"
  shows "cont_due c (createLobby rnd u gid lid lname maxp uname s)"
    and "cont_due c (joinLobby rnd u gid lobby uname s)"
    and "cont_due c (listLobbies u gid s)"
  using assms
  by (simp_all add: createLobby_def joinLobby_def listLobbies_def Let_def
      cont_due_openWS cont_due_new_call)

lemma cont_due_init: "cont_due c s \<Longrightarrow> cont_due c (init rnd u rid uname gid ctx s)"
  by (simp add: init_def init_online_def Let_def cont_due_emit cont_due_new cont_due_chain
      split: option.splits lobby_ctx.splits)

lemma cont_due_run:
  assumes d: "cont_due c s"
  shows "cont_due c (run rnd inp s)"
proof (cases inp)
  case (CallInit u rid uname gid ctx)
  then show ?thesis using d by (simp add: cont_due_init)
next
  case (SockOpen i)
  have "cont_due c (onopen i h x)" if "cont_due c x" for h x
    using that by (cases h) (simp_all add: cont_due_settle_open cont_due_emit Let_def)
  then show ?thesis using SockOpen d by simp
next
  case (SockMessage i fr)
  have "cont_due c (onmessage h fr x)" if "cont_due c x" for h x
    using that by (cases h; cases fr) (simp_all add: cont_due_handleMessage)
  then show ?thesis using SockMessage d by simp
next
  case (SockError i)
  have "cont_due c (onerror i h x)" if "cont_due c x" for h x
    using that by (cases h) (simp_all add: cont_due_settle_open cont_due_emit)
  then show ?thesis using SockError d by simp
next
  case (SockClose i)
  have "cont_due c (onclose h x)" if "cont_due c x" for h x
    using that by (cases h) (simp_all add: cont_due_emit)
  then show ?thesis using SockClose d by simp
next
  case (Timeout dl t)
  have "cont_due c (fire t x)" if "cont_due c x" for x
    using that by (cases t) (simp_all add: cont_due_settle_open cont_due_settle)
  then show ?thesis using Timeout d by simp
qed (use d in \<open>simp_all add: cont_due_new leaveLobby_def kickFromLobby_def closeLobby_def
      getLobbyInfo_def disconnect_def updateState_def sendMessage_def mutate_def
      split: option.splits\<close>)

lemma cont_due_created:
  "cont_due (length (calls s)) (createLobby rnd u gid lid lname maxp uname s)"
proof -
  define s1 where "s1 = (assign_playerId rnd s)\<lparr> username := or_else uname (username s), gameId := gid \<rparr>"
  define k where "k = Create gid lid (case lname of None \<Rightarrow> ''My Lobby'' | Some n \<Rightarrow> n)
                        (case maxp of None \<Rightarrow> 8 | Some m \<Rightarrow> m)"
  have l: "length (calls s1) = length (calls s)" by (simp add: s1_def)
  have e: "createLobby rnd u gid lid lname maxp uname s = openWS u (length (calls s1)) (new_call k s1)"
    by (simp add: createLobby_def s1_def k_def Let_def)
  have "cont_due (length (calls s1)) (new_call k s1)"
    by (simp add: cont_due_def new_call_def)
  then show ?thesis unfolding e l[symmetric] by (rule cont_due_openWS)
qed

lemma drain_continues:
  "work s \<le> n \<Longrightarrow> cont_due c s \<Longrightarrow> opened (calls (drain n rnd s) ! c) = Some True \<Longrightarrow>
   \<exists>s1 m. drain n rnd s = drain m rnd (run_task rnd (Continue c None) s1) \<and>
      c < length (calls s1) \<and> kind (calls s1 ! c) = kind (calls s ! c)"
proof (induction n arbitrary: s)
  case 0
  then have "microtasks s = []" by (simp add: work_def)
  then show ?case using 0 by (simp add: cont_due_def)
next
  case (Suc n)
  show ?case
  proof (cases "microtasks s")
    case Nil
    then show ?thesis using Suc.prems by (simp add: cont_due_def)
  next
    case (Cons t ts)
    let ?s = "s\<lparr> microtasks := ts \<rparr>"
    have w: "work (run_task rnd t ?s) \<le> n"
    proof -
      have "work ?s + 1 = work s" using Cons by (simp add: work_def)
      then show ?thesis using work_run_task[of rnd t ?s] Suc.prems(1) by simp
    qed
    have e: "drain (Suc n) rnd s = drain n rnd (run_task rnd t ?s)" using Cons by simp
    have l: "c < length (calls s)" using Suc.prems(2) by (simp add: cont_due_def)
    show ?thesis
    proof (cases "t = Continue c None \<and> opened (calls s ! c) = Some True")
      case True
      have "c < length (calls ?s) \<and> kind (calls ?s ! c) = kind (calls s ! c)" using l by simp
      then show ?thesis using e True by blast
    next
      case False
      have "cont_due c ?s" using Suc.prems(2) False Cons by (auto simp add: cont_due_def)
      then have d: "cont_due c (run_task rnd t ?s)" by (rule cont_due_run_task)
      have o: "opened (calls (drain n rnd (run_task rnd t ?s)) ! c) = Some True"
        using Suc.prems(3) e by simp
      have k: "kind (calls (run_task rnd t ?s) ! c) = kind (calls s ! c)"
        using kinds_nth[OF run_task_kinds[of rnd t ?s]] l by simp
      show ?thesis using Suc.IH[OF w d o] e k by simp
    qed
  qed
qed

lemma dispatch_continues:
  assumes "c < length (calls s)" and "opened (calls s ! c) = None"
    and "opened (calls (dispatch rnd inp s) ! c) = Some True"
  shows "\<exists>s1 m. dispatch rnd inp s = drain m rnd (run_task rnd (Continue c None) s1) \<and>
      c < length (calls s1) \<and> kind (calls s1 ! c) = kind (calls s ! c)"
proof -
  have "cont_due c s" using assms(1,2) by (simp add: cont_due_def)
  then have d: "cont_due c (run rnd inp s)" by (rule cont_due_run)
  have k: "kind (calls (run rnd inp s) ! c) = kind (calls s ! c)"
    using run_kinds[of rnd inp s] kinds_kept assms(1) by blast
  show ?thesis
    using drain_continues[of "run rnd inp s" "work (run rnd inp s)" c rnd] d assms(3) k
    by (simp add: dispatch_def Let_def)
qed

lemma createLobby_continues:
  assumes "opened (calls (dispatch rnd (CallCreateLobby u gid lid lname maxp uname) s) ! length (calls s)) =
      Some True"
  shows "\<exists>s1 m. dispatch rnd (CallCreateLobby u gid lid lname maxp uname) s =
        drain m rnd (run_task rnd (Continue (length (calls s)) None) s1) \<and>
      length (calls s) < length (calls s1) \<and>
      kind (calls s1 ! length (calls s)) =
        Create gid lid (case lname of None \<Rightarrow> ''My Lobby'' | Some n \<Rightarrow> n)
          (case maxp of None \<Rightarrow> 8 | Some m \<Rightarrow> m)"
proof -
  let ?s = "createLobby rnd u gid lid lname maxp uname s"
  have d: "cont_due (length (calls s)) ?s" by (rule cont_due_created)
  have k: "kind (calls ?s ! length (calls s)) =
        Create gid lid (case lname of None \<Rightarrow> ''My Lobby'' | Some n \<Rightarrow> n)
          (case maxp of None \<Rightarrow> 8 | Some m \<Rightarrow> m)"
    using arg_cong[OF new_kinds(1)[of rnd u gid lid lname maxp uname s],
        of "\<lambda>ks. ks ! length (calls s)"] createLobby_calls[of rnd u gid lid lname maxp uname s]
    by (simp add: nth_append)
  show ?thesis
    using drain_continues[of ?s "work ?s" "length (calls s)" rnd] d assms k
    by (simp add: dispatch_def Let_def)
qed

section \<open>Runs of the examples\<close>





section \<open>The claims\<close>

subsection \<open>C1\<close>

text \<open>
  C1 at a failing input. The page subscribes to \<open>disconnected\<close> and joins a lobby; the
  socket opens; \<open>lobby_state\<close> arrives with one player; the socket closes. The close
  handler that \<open>_openWS\<close> installed resets \<open>_connected\<close>, \<open>_lobbyInfo\<close> and \<open>_isHost\<close>
  and publishes \<open>disconnected\<close>, but the set of remote players is not emptied:
  \<open>getPlayers\<close> still returns the player. A \<open>lobby_closed\<close> message in place of the
  close does empty the set.
\<close>

theorem close_leaves_players:
  "connected (dispatch ''r'' (SockClose 0) (dispatch_all ''r'' joined_run initial)) = False \<and>
   lobbyInfo (dispatch ''r'' (SockClose 0) (dispatch_all ''r'' joined_run initial)) = None \<and>
   isHost (dispatch ''r'' (SockClose 0) (dispatch_all ''r'' joined_run initial)) = False \<and>
   invoked (dispatch ''r'' (SockClose 0) (dispatch_all ''r'' joined_run initial)) =
     invoked (dispatch_all ''r'' joined_run initial) @ [(UserFn 7 False, Disconnected)] \<and>
   getPlayers (dispatch ''r'' (SockClose 0) (dispatch_all ''r'' joined_run initial)) = [ann] \<and>
   getPlayers (dispatch ''r'' (SockMessage 0 (Parsed Lobby_closed))
      (dispatch_all ''r'' joined_run initial)) = []"
  by (simp add: getPlayers_def joined_run_def sdk_defs drain_unfold ann_def)

subsection \<open>C2\<close>




subsection \<open>C3\<close>



subsection \<open>C4\<close>

text \<open>
  C4, as the code has it. The promise of \<open>listLobbies\<close> rejects when, and in every run
  of the SDK only when, the promise of its \<open>_openWS\<close> rejected (the connection could not
  be opened): the failed \<open>await\<close> rejects it with the same error. When the connection
  is open the call subscribes its \<open>onList\<close> closure, sends \<open>lobby_list\<close> and sets a
  timer of 5000 ms. A \<open>lobby_list\<close> message that arrives while the promise is pending
  resolves it with the \<open>lobbies\<close> of the message (the empty list when the field is
  absent); the timer expiring while the promise is pending resolves it with the empty
  list; whichever comes second changes nothing.
\<close>

theorem listLobbies_settles:
  "(c < length (calls (dispatch_each steps initial)) \<and>
    is_List (kind (calls (dispatch_each steps initial) ! c)) \<and>
    rejected (outcome (calls (dispatch_each steps initial) ! c)) \<longrightarrow>
      opened (calls (dispatch_each steps initial) ! c) = Some False) \<and>
   (c < length (calls s) \<and> pending (outcome (calls s ! c)) \<longrightarrow>
      outcome (calls (run_task rnd (Continue c (Some err)) s) ! c) = Rejected err) \<and>
   (c < length (calls s) \<and> kind (calls s ! c) = List gid \<longrightarrow>
      handlers_for ''lobbyList'' (run_task rnd (Continue c None) s) =
        handlers_for ''lobbyList'' s @ [OnList c] \<and>
      timers (run_task rnd (Continue c None) s) = timers s @ [(5000, ListTimeout c)] \<and>
      (ws s = Some i \<and> i < length (sockets s) \<and> readyState (sockets s ! i) = OPEN \<longrightarrow>
         sent (sockets (run_task rnd (Continue c None) s) ! i) =
           sent (sockets s ! i) @ [Send_lobby_list gid])) \<and>
   (c < length (calls s) \<and> pending (outcome (calls s ! c)) \<and>
    OnList c \<in> set (handlers_for ''lobbyList'' s) \<and>
    (\<forall>h \<in> set (handlers_for ''lobbyList'' s). target h = Some c \<longrightarrow> h = OnList c) \<longrightarrow>
      outcome (calls (handleMessage (Lobby_list lobbies) s) ! c) =
        Resolved (LobbyList (case lobbies of None \<Rightarrow> [] | Some l \<Rightarrow> l))) \<and>
   (c < length (calls s) \<and> pending (outcome (calls s ! c)) \<longrightarrow>
      outcome (calls (fire (ListTimeout c) s) ! c) = Resolved (LobbyList []) \<and>
      OnList c \<notin> set (handlers_for ''lobbyList'' (fire (ListTimeout c) s))) \<and>
   (\<not> pending (outcome (calls s ! c)) \<longrightarrow>
      outcome (calls (handleMessage msg s) ! c) = outcome (calls s ! c) \<and>
      outcome (calls (fire t s) ! c) = outcome (calls s ! c))"
proof (intro conjI impI)
  assume "c < length (calls (dispatch_each steps initial)) \<and>
    is_List (kind (calls (dispatch_each steps initial) ! c)) \<and>
    rejected (outcome (calls (dispatch_each steps initial) ! c))"
  then show "opened (calls (dispatch_each steps initial) ! c) = Some False"
    using wired_dispatch_each[OF wired_initial, of steps] by (simp add: wired_def)
next
  assume "c < length (calls s) \<and> pending (outcome (calls s ! c))"
  then show "outcome (calls (run_task rnd (Continue c (Some err)) s) ! c) = Rejected err"
    by (simp add: settle_pending)
next
  assume a: "c < length (calls s) \<and> kind (calls s ! c) = List gid"
  then show "handlers_for ''lobbyList'' (run_task rnd (Continue c None) s) =
        handlers_for ''lobbyList'' s @ [OnList c]"
    by (simp add: Let_def handlers_for_def send_def on_def split: option.splits)
  from a show "timers (run_task rnd (Continue c None) s) = timers s @ [(5000, ListTimeout c)]"
    by (simp add: Let_def)
  assume "ws s = Some i \<and> i < length (sockets s) \<and> readyState (sockets s ! i) = OPEN"
  then show "sent (sockets (run_task rnd (Continue c None) s) ! i) =
           sent (sockets s ! i) @ [Send_lobby_list gid]"
    using a by (simp add: Let_def send_def)
next
  assume a: "c < length (calls s) \<and> pending (outcome (calls s ! c)) \<and>
    OnList c \<in> set (handlers_for ''lobbyList'' s) \<and>
    (\<forall>h \<in> set (handlers_for ''lobbyList'' s). target h = Some c \<longrightarrow> h = OnList c)"
  show "outcome (calls (handleMessage (Lobby_list lobbies) s) ! c) =
        Resolved (LobbyList (case lobbies of None \<Rightarrow> [] | Some l \<Rightarrow> l))"
    using forEach_OnList[of c s "handlers_for ''lobbyList'' s"
        "LobbyList (case lobbies of None \<Rightarrow> [] | Some l \<Rightarrow> l)"] a
    by (simp add: emit_def emit_try_def)
next
  assume a: "c < length (calls s) \<and> pending (outcome (calls s ! c))"
  then show "outcome (calls (fire (ListTimeout c) s) ! c) = Resolved (LobbyList [])"
    by (simp add: settle_pending)
  show "OnList c \<notin> set (handlers_for ''lobbyList'' (fire (ListTimeout c) s))"
    by (simp add: handlers_for_def settle_def off_def split: option.splits)
next
  assume a: "\<not> pending (outcome (calls s ! c))"
  then show "outcome (calls (handleMessage msg s) ! c) = outcome (calls s ! c)"
    by (rule handleMessage_settled)
  from a show "outcome (calls (fire t s) ! c) = outcome (calls s ! c)"
    by (rule fire_settled)
qed

theorem listLobbies_settles_witness:
  "rejected (outcome (calls (dispatch_each
      [(''r'', CallListLobbies ''ws://h'' (Some ''g1'')), (''r'', SockError 0)] initial) ! 0)) \<and>
   opened (calls (dispatch_each
      [(''r'', CallListLobbies ''ws://h'' (Some ''g1'')), (''r'', SockError 0)] initial) ! 0) = Some False \<and>
   pending (outcome (calls list_failed ! 0)) \<and>
   outcome (calls (run_task ''r'' (Continue 0 (Some (Error (SocketError 0)))) list_failed) ! 0) =
     Rejected (Error (SocketError 0)) \<and>
   kind (calls list_opened ! 0) = List (Some ''g1'') \<and>
   handlers_for ''lobbyList'' (run_task ''r'' (Continue 0 None) list_opened) = [OnList 0] \<and>
   timers (run_task ''r'' (Continue 0 None) list_opened) = [(5000, ListTimeout 0)] \<and>
   sent (sockets (run_task ''r'' (Continue 0 None) list_opened) ! 0) = [Send_lobby_list (Some ''g1'')] \<and>
   pending (outcome (calls list_waiting ! 0)) \<and>
   outcome (calls (handleMessage (Lobby_list (Some [JStr ''L1''])) list_waiting) ! 0) =
     Resolved (LobbyList [JStr ''L1'']) \<and>
   outcome (calls (fire (ListTimeout 0) list_waiting) ! 0) = Resolved (LobbyList []) \<and>
   outcome (calls (fire (ListTimeout 0) (handleMessage (Lobby_list (Some [JStr ''L1''])) list_waiting)) ! 0) =
     Resolved (LobbyList [JStr ''L1''])"
proof -
  note t1 = listLobbies_settles[where c = 0 and s = list_failed and rnd = "''r''"
      and err = "Error (SocketError 0)"
      and steps = "[(''r'', CallListLobbies ''ws://h'' (Some ''g1'')), (''r'', SockError 0)]"]
  note t2 = listLobbies_settles[where c = 0 and s = list_opened and rnd = "''r''"
      and gid = "Some ''g1''" and i = 0]
  note t3 = listLobbies_settles[where c = 0 and s = list_waiting and lobbies = "Some [JStr ''L1'']"]
  note t4 = listLobbies_settles[where c = 0
      and s = "handleMessage (Lobby_list (Some [JStr ''L1''])) list_waiting"
      and t = "ListTimeout 0"]
  have a: "rejected (outcome (calls (dispatch_each
      [(''r'', CallListLobbies ''ws://h'' (Some ''g1'')), (''r'', SockError 0)] initial) ! 0)) \<and>
   opened (calls (dispatch_each
      [(''r'', CallListLobbies ''ws://h'' (Some ''g1'')), (''r'', SockError 0)] initial) ! 0) = Some False"
    using t1[THEN conjunct1] by (simp only: list_rejected_run) simp
  have b: "pending (outcome (calls list_failed ! 0)) \<and>
   outcome (calls (run_task ''r'' (Continue 0 (Some (Error (SocketError 0)))) list_failed) ! 0) =
     Rejected (Error (SocketError 0))"
    using t1[THEN conjunct2, THEN conjunct1] by (simp add: list_failed_state del: run_task.simps)
  have c: "kind (calls list_opened ! 0) = List (Some ''g1'') \<and>
   handlers_for ''lobbyList'' (run_task ''r'' (Continue 0 None) list_opened) = [OnList 0] \<and>
   timers (run_task ''r'' (Continue 0 None) list_opened) = [(5000, ListTimeout 0)] \<and>
   sent (sockets (run_task ''r'' (Continue 0 None) list_opened) ! 0) = [Send_lobby_list (Some ''g1'')]"
    using t2[THEN conjunct2, THEN conjunct2, THEN conjunct1]
    by (simp add: list_opened_state del: run_task.simps)
  have d: "pending (outcome (calls list_waiting ! 0)) \<and>
   outcome (calls (handleMessage (Lobby_list (Some [JStr ''L1''])) list_waiting) ! 0) =
     Resolved (LobbyList [JStr ''L1''])"
    using t3[THEN conjunct2, THEN conjunct2, THEN conjunct2, THEN conjunct1]
    by (simp add: list_waiting_state del: handleMessage.simps)
  have e: "outcome (calls (fire (ListTimeout 0) list_waiting) ! 0) = Resolved (LobbyList [])"
    using t3[THEN conjunct2, THEN conjunct2, THEN conjunct2, THEN conjunct2, THEN conjunct1]
    by (simp add: list_waiting_state del: fire.simps)
  have f: "outcome (calls (fire (ListTimeout 0) (handleMessage (Lobby_list (Some [JStr ''L1''])) list_waiting)) ! 0) =
     Resolved (LobbyList [JStr ''L1''])"
    using t4[THEN conjunct2, THEN conjunct2, THEN conjunct2, THEN conjunct2, THEN conjunct2] d
    by (simp del: fire.simps handleMessage.simps)
  show ?thesis using a b c d e f by blast
qed

theorem listLobbies_rejects_counterexample:
  "outcome (calls (dispatch_all ''r'' [CallListLobbies ''ws://h'' (Some ''g1''), SockError 0] initial) ! 0) =
     Rejected (Error (SocketError 0))"
  by (simp add: sdk_defs drain_unfold)

subsection \<open>C5\<close>

text \<open>
  C5, with the server as the specification describes it. \<open>createLobby\<close> records the
  lobby name the caller gave (\<open>My Lobby\<close> when there is none); no input changes what a
  call has recorded; the input that opens the connection of the call, be it the call
  itself on an open socket or a later one, runs the rest of the call; and when the call
  goes on after \<open>_openWS\<close>, the \<open>lobby_create\<close> request it sends on the open socket
  carries that name. The server answers the request with
  \<open>lobby_created\<close>, where \<open>isPublic\<close> says whether the name of the request starts with
  \<open>PUBLIC_\<close>, and the \<open>lobby_created\<close> case publishes \<open>lobbyCreated\<close> with the name and
  the \<open>isPublic\<close> of that message to every subscriber. So the event has \<open>isPublic\<close> true
  when the name starts with the marker and false when it does not.
\<close>

theorem public_marker_decides_isPublic:
  "kind (calls (createLobby rnd u gid lid lname maxp uname s) ! length (calls s)) =
     Create gid lid (case lname of None \<Rightarrow> ''My Lobby'' | Some n \<Rightarrow> n)
       (case maxp of None \<Rightarrow> 8 | Some m \<Rightarrow> m) \<and>
   (c < length (calls s) \<longrightarrow>
      c < length (calls (dispatch rnd inp s)) \<and>
      kind (calls (dispatch rnd inp s) ! c) = kind (calls s ! c)) \<and>
   (opened (calls (dispatch rnd (CallCreateLobby u gid lid lname maxp uname) s) ! length (calls s)) =
      Some True \<longrightarrow>
      (\<exists>s1 k. dispatch rnd (CallCreateLobby u gid lid lname maxp uname) s =
           drain k rnd (run_task rnd (Continue (length (calls s)) None) s1) \<and>
         length (calls s) < length (calls s1) \<and>
         kind (calls s1 ! length (calls s)) =
           Create gid lid (case lname of None \<Rightarrow> ''My Lobby'' | Some n \<Rightarrow> n)
             (case maxp of None \<Rightarrow> 8 | Some m \<Rightarrow> m))) \<and>
   (c < length (calls s) \<and> opened (calls s ! c) = None \<and>
    opened (calls (dispatch rnd inp s) ! c) = Some True \<longrightarrow>
      (\<exists>s1 k. dispatch rnd inp s = drain k rnd (run_task rnd (Continue c None) s1) \<and>
         c < length (calls s1) \<and> kind (calls s1 ! c) = kind (calls s ! c))) \<and>
   (c < length (calls s) \<and> kind (calls s ! c) = Create gid lid name m \<and>
    ws s = Some i \<and> i < length (sockets s) \<and> readyState (sockets s ! i) = OPEN \<longrightarrow>
      sent (sockets (run_task rnd (Continue c None) s) ! i) =
        sent (sockets s ! i) @
        [Send_lobby_create gid
           (case lid of None \<Rightarrow> None | Some l \<Rightarrow> if l = [] then None else Some l)
           name m (playerId s) (username s)]) \<and>
   (server_lobby_created lobby n pid (Send_lobby_create gid lid' name m p un) = Some msg \<longrightarrow>
      msg = Lobby_created lobby name (take 7 name = ''PUBLIC_'') n pid \<and>
      invoked (handleMessage msg s) =
        invoked s @
        map (\<lambda>h. (h, LobbyCreated \<lparr> lobbyId = lobby, lobbyName = name,
                                     isPublic = (take 7 name = ''PUBLIC_''),
                                     ownerId = None, maxPlayers = n \<rparr> pid))
          (handlers_for ''lobbyCreated'' s))"
proof (intro conjI impI)
  show "kind (calls (createLobby rnd u gid lid lname maxp uname s) ! length (calls s)) =
     Create gid lid (case lname of None \<Rightarrow> ''My Lobby'' | Some n \<Rightarrow> n)
       (case maxp of None \<Rightarrow> 8 | Some m \<Rightarrow> m)"
    using arg_cong[OF new_kinds(1)[of rnd u gid lid lname maxp uname s],
        of "\<lambda>ks. ks ! length (calls s)"] createLobby_calls[of rnd u gid lid lname maxp uname s]
    by (simp add: nth_append)
next
  assume "c < length (calls s)"
  then show "c < length (calls (dispatch rnd inp s))"
    and "kind (calls (dispatch rnd inp s) ! c) = kind (calls s ! c)"
    using dispatch_kind[of c s rnd inp] by simp_all
next
  assume "opened (calls (dispatch rnd (CallCreateLobby u gid lid lname maxp uname) s) ! length (calls s)) =
      Some True"
  then show "\<exists>s1 k. dispatch rnd (CallCreateLobby u gid lid lname maxp uname) s =
           drain k rnd (run_task rnd (Continue (length (calls s)) None) s1) \<and>
         length (calls s) < length (calls s1) \<and>
         kind (calls s1 ! length (calls s)) =
           Create gid lid (case lname of None \<Rightarrow> ''My Lobby'' | Some n \<Rightarrow> n)
             (case maxp of None \<Rightarrow> 8 | Some m \<Rightarrow> m)"
    by (rule createLobby_continues)
next
  assume "c < length (calls s) \<and> opened (calls s ! c) = None \<and>
    opened (calls (dispatch rnd inp s) ! c) = Some True"
  then show "\<exists>s1 k. dispatch rnd inp s = drain k rnd (run_task rnd (Continue c None) s1) \<and>
         c < length (calls s1) \<and> kind (calls s1 ! c) = kind (calls s ! c)"
    using dispatch_continues[of c s rnd inp] by simp
next
  assume "c < length (calls s) \<and> kind (calls s ! c) = Create gid lid name m \<and>
    ws s = Some i \<and> i < length (sockets s) \<and> readyState (sockets s ! i) = OPEN"
  then show "sent (sockets (run_task rnd (Continue c None) s) ! i) =
        sent (sockets s ! i) @
        [Send_lobby_create gid
           (case lid of None \<Rightarrow> None | Some l \<Rightarrow> if l = [] then None else Some l)
           name m (playerId s) (username s)]"
    by (simp add: Let_def send_def)
next
  assume a: "server_lobby_created lobby n pid (Send_lobby_create gid lid' name m p un) = Some msg"
  then show e: "msg = Lobby_created lobby name (take 7 name = ''PUBLIC_'') n pid"
    by (simp add: public_name_def)
  show "invoked (handleMessage msg s) =
        invoked s @
        map (\<lambda>h. (h, LobbyCreated \<lparr> lobbyId = lobby, lobbyName = name,
                                     isPublic = (take 7 name = ''PUBLIC_''),
                                     ownerId = None, maxPlayers = n \<rparr> pid))
          (handlers_for ''lobbyCreated'' s)"
    unfolding e by (simp add: emit_invoked Let_def)
qed

theorem public_marker_decides_isPublic_witness:
  "opened (calls (dispatch_all ''r'' (take 2 created_run) initial) ! 0) = None \<and>
   opened (calls create_waiting ! 0) = Some True \<and>
   (\<exists>s1 k. create_waiting = drain k ''r'' (run_task ''r'' (Continue 0 None) s1) \<and>
      kind (calls s1 ! 0) = Create (Some ''g1'') None ''PUBLIC_Arena'' 4) \<and>
   opened (calls (dispatch ''r'' (CallCreateLobby ''ws://h'' (Some ''g1'') None (Some ''Arena'') None None)
       create_waiting) ! 1) = Some True \<and>
   (\<exists>s1 k. dispatch ''r'' (CallCreateLobby ''ws://h'' (Some ''g1'') None (Some ''Arena'') None None)
         create_waiting = drain k ''r'' (run_task ''r'' (Continue 1 None) s1) \<and>
      kind (calls s1 ! 1) = Create (Some ''g1'') None ''Arena'' 8) \<and>
   kind (calls create_opened ! 0) = Create (Some ''g1'') None ''PUBLIC_Arena'' 4 \<and>
   ws create_opened = Some 0 \<and> readyState (sockets create_opened ! 0) = OPEN \<and>
   sent (sockets (run_task ''r'' (Continue 0 None) create_opened) ! 0) =
     [Send_lobby_create (Some ''g1'') None ''PUBLIC_Arena'' 4 (Some ''p_r'') ''Ann''] \<and>
   server_lobby_created ''L1'' 4 ''p_r''
     (Send_lobby_create (Some ''g1'') None ''PUBLIC_Arena'' 4 (Some ''p_r'') ''Ann'') =
     Some (Lobby_created ''L1'' ''PUBLIC_Arena'' True 4 ''p_r'') \<and>
   invoked (handleMessage (Lobby_created ''L1'' ''PUBLIC_Arena'' True 4 ''p_r'') create_waiting) =
     [(UserFn 3 False, LobbyCreated \<lparr> lobbyId = ''L1'', lobbyName = ''PUBLIC_Arena'',
         isPublic = True, ownerId = None, maxPlayers = 4 \<rparr> ''p_r''),
      (OnCreated 0, LobbyCreated \<lparr> lobbyId = ''L1'', lobbyName = ''PUBLIC_Arena'',
         isPublic = True, ownerId = None, maxPlayers = 4 \<rparr> ''p_r'')] \<and>
   server_lobby_created ''L2'' 4 ''p_r''
     (Send_lobby_create (Some ''g1'') None ''Arena'' 4 (Some ''p_r'') ''Ann'') =
     Some (Lobby_created ''L2'' ''Arena'' False 4 ''p_r'') \<and>
   invoked (handleMessage (Lobby_created ''L2'' ''Arena'' False 4 ''p_r'') create_waiting) =
     [(UserFn 3 False, LobbyCreated \<lparr> lobbyId = ''L2'', lobbyName = ''Arena'',
         isPublic = False, ownerId = None, maxPlayers = 4 \<rparr> ''p_r''),
      (OnCreated 0, LobbyCreated \<lparr> lobbyId = ''L2'', lobbyName = ''Arena'',
         isPublic = False, ownerId = None, maxPlayers = 4 \<rparr> ''p_r'')]"
proof -
  note t1 = public_marker_decides_isPublic[where s = create_opened and c = 0 and i = 0
      and gid = "Some ''g1''" and lid = None and name = "''PUBLIC_Arena''" and m = 4
      and rnd = "''r''", THEN conjunct2, THEN conjunct2, THEN conjunct2, THEN conjunct2,
      THEN conjunct1]
  note t2 = public_marker_decides_isPublic[where s = create_waiting and lobby = "''L1''"
      and gid = "Some ''g1''" and lid' = None and name = "''PUBLIC_Arena''" and m = 4
      and n = 4 and p = "Some ''p_r''" and pid = "''p_r''" and un = "''Ann''"
      and msg = "Lobby_created ''L1'' ''PUBLIC_Arena'' True 4 ''p_r''",
      THEN conjunct2, THEN conjunct2, THEN conjunct2, THEN conjunct2, THEN conjunct2]
  note t3 = public_marker_decides_isPublic[where s = create_waiting and lobby = "''L2''"
      and gid = "Some ''g1''" and lid' = None and name = "''Arena''" and m = 4
      and n = 4 and p = "Some ''p_r''" and pid = "''p_r''" and un = "''Ann''"
      and msg = "Lobby_created ''L2'' ''Arena'' False 4 ''p_r''",
      THEN conjunct2, THEN conjunct2, THEN conjunct2, THEN conjunct2, THEN conjunct2]
  note t4 = public_marker_decides_isPublic[where s = create_waiting and rnd = "''r''"
      and u = "''ws://h''" and gid = "Some ''g1''" and lid = None and lname = "Some ''Arena''"
      and maxp = None and uname = None,
      THEN conjunct2, THEN conjunct2, THEN conjunct1]
  note t5 = public_marker_decides_isPublic[where s = "dispatch_all ''r'' (take 2 created_run) initial"
      and rnd = "''r''" and c = 0 and inp = "SockOpen 0",
      THEN conjunct2, THEN conjunct2, THEN conjunct2, THEN conjunct1]
  have w: "create_waiting = dispatch ''r'' (SockOpen 0) (dispatch_all ''r'' (take 2 created_run) initial)"
    by (simp add: create_waiting_def created_run_def)
  have c0: "calls (dispatch_all ''r'' (take 2 created_run) initial) =
     [\<lparr> kind = Create (Some ''g1'') None ''PUBLIC_Arena'' 4, opened = None,
        outcome = Pending, reaction = NoReaction \<rparr>]"
    by (simp add: created_run_def sdk_defs drain_unfold)
  have o1: "opened (calls (dispatch ''r'' (CallCreateLobby ''ws://h'' (Some ''g1'') None (Some ''Arena'') None None)
       create_waiting) ! 1) = Some True"
    by (simp add: create_waiting_def created_run_def sdk_defs drain_unfold)
  have g1: "\<exists>s1 k. create_waiting = drain k ''r'' (run_task ''r'' (Continue 0 None) s1) \<and>
      kind (calls s1 ! 0) = Create (Some ''g1'') None ''PUBLIC_Arena'' 4"
    using t5 by (simp add: c0 w[symmetric] create_waiting_state del: run_task.simps) blast
  have g2: "\<exists>s1 k. dispatch ''r'' (CallCreateLobby ''ws://h'' (Some ''g1'') None (Some ''Arena'') None None)
         create_waiting = drain k ''r'' (run_task ''r'' (Continue 1 None) s1) \<and>
      kind (calls s1 ! 1) = Create (Some ''g1'') None ''Arena'' 8"
    using t4 o1 by (simp add: create_waiting_state del: run_task.simps) blast
  have k: "calls create_opened =
     [\<lparr> kind = Create (Some ''g1'') None ''PUBLIC_Arena'' 4, opened = Some True,
        outcome = Pending, reaction = NoReaction \<rparr>]"
    by (simp add: create_opened_def created_run_def sdk_defs drain_unfold)
  have a: "kind (calls create_opened ! 0) = Create (Some ''g1'') None ''PUBLIC_Arena'' 4 \<and>
     ws create_opened = Some 0 \<and> readyState (sockets create_opened ! 0) = OPEN \<and>
     sent (sockets (run_task ''r'' (Continue 0 None) create_opened) ! 0) =
       [Send_lobby_create (Some ''g1'') None ''PUBLIC_Arena'' 4 (Some ''p_r'') ''Ann'']"
    using t1 by (simp add: create_opened_state k del: run_task.simps)
  have s1: "server_lobby_created ''L1'' 4 ''p_r''
     (Send_lobby_create (Some ''g1'') None ''PUBLIC_Arena'' 4 (Some ''p_r'') ''Ann'') =
     Some (Lobby_created ''L1'' ''PUBLIC_Arena'' True 4 ''p_r'')"
    by (simp add: public_name_def)
  have s2: "server_lobby_created ''L2'' 4 ''p_r''
     (Send_lobby_create (Some ''g1'') None ''Arena'' 4 (Some ''p_r'') ''Ann'') =
     Some (Lobby_created ''L2'' ''Arena'' False 4 ''p_r'')"
    by (simp add: public_name_def)
  have i: "invoked create_waiting = []"
    by (simp add: create_waiting_def created_run_def sdk_defs drain_unfold)
  have b: "invoked (handleMessage (Lobby_created ''L1'' ''PUBLIC_Arena'' True 4 ''p_r'') create_waiting) =
     [(UserFn 3 False, LobbyCreated \<lparr> lobbyId = ''L1'', lobbyName = ''PUBLIC_Arena'',
         isPublic = True, ownerId = None, maxPlayers = 4 \<rparr> ''p_r''),
      (OnCreated 0, LobbyCreated \<lparr> lobbyId = ''L1'', lobbyName = ''PUBLIC_Arena'',
         isPublic = True, ownerId = None, maxPlayers = 4 \<rparr> ''p_r'')]"
    using t2[rule_format, OF s1, THEN conjunct2]
    by (simp add: create_waiting_state i del: handleMessage.simps)
  have c: "invoked (handleMessage (Lobby_created ''L2'' ''Arena'' False 4 ''p_r'') create_waiting) =
     [(UserFn 3 False, LobbyCreated \<lparr> lobbyId = ''L2'', lobbyName = ''Arena'',
         isPublic = False, ownerId = None, maxPlayers = 4 \<rparr> ''p_r''),
      (OnCreated 0, LobbyCreated \<lparr> lobbyId = ''L2'', lobbyName = ''Arena'',
         isPublic = False, ownerId = None, maxPlayers = 4 \<rparr> ''p_r'')]"
    using t3[rule_format, OF s2, THEN conjunct2]
    by (simp add: create_waiting_state i del: handleMessage.simps)
  show ?thesis using a s1 s2 b c g1 g2 o1 by (simp add: c0 create_waiting_state)
qed

subsection \<open>C6\<close>



subsection \<open>C7\<close>

text \<open>
  C7 at a failing input. The init hook asks for a lobby; the socket opens; the server
  answers \<open>error\<close>; the fallback \<open>connect\<close> makes a second socket and does not close the
  first; the second opens: two sockets are open, and \<open>_ws\<close> is the second.
\<close>

theorem fallback_leaves_two_sockets_open:
  "open_sockets (dispatch_all ''r'' fallback_run initial) = [0, 1] \<and>
   ws (dispatch_all ''r'' fallback_run initial) = Some 1 \<and>
   map hooks (sockets (dispatch_all ''r'' fallback_run initial)) = [Opened, Legacy]"
  by (simp add: fallback_run_def sdk_defs drain_unfold open_sockets_def upt_rec)

subsection \<open>C8\<close>

text \<open>
  C8. For every event and every list of handlers subscribed with \<open>on\<close>, publishing calls
  each handler of the event once, in subscription order (those subscribed before, then
  the list); what a handler throws is logged to the console, the handlers after it are
  still called, and no exception leaves \<open>emit\<close>.
\<close>

theorem emit_isolates_handlers:
  "snd (emit_try ev (fold (on (event_name ev)) hs s)) = None \<and>
   invoked (emit ev (fold (on (event_name ev)) hs s)) =
     invoked s @ map (\<lambda>h. (h, ev)) (handlers_for (event_name ev) s @ hs) \<and>
   console (emit ev (fold (on (event_name ev)) hs s)) =
     console s @ thrown (handlers_for (event_name ev) s @ hs)"
  using forEach_guarded[of ev "handlers_for (event_name ev) s @ hs" "fold (on (event_name ev)) hs s"]
    fold_on[of "event_name ev" hs s]
  by (simp add: emit_def emit_try_def)

theorem emit_isolates_handlers_witness:
  "snd (emit_try Disconnected (fold (on ''disconnected'') [UserFn 0 True, UserFn 1 False] initial)) = None \<and>
   invoked (emit Disconnected (fold (on ''disconnected'') [UserFn 0 True, UserFn 1 False] initial)) =
     [(UserFn 0 True, Disconnected), (UserFn 1 False, Disconnected)] \<and>
   console (emit Disconnected (fold (on ''disconnected'') [UserFn 0 True, UserFn 1 False] initial)) =
     [HandlerError 0]"
  using emit_isolates_handlers[of Disconnected "[UserFn 0 True, UserFn 1 False]" initial]
  by (simp add: initial_def handlers_for_def)

subsection \<open>C9\<close>




subsection \<open>C10\<close>

text \<open>
  C10. \<open>getLobbyInfo\<close> returns \<open>null\<close> and changes nothing when \<open>_lobbyInfo\<close> is null;
  otherwise it returns a new object (one that was not in the store) with the properties
  of \<open>_lobbyInfo\<close>, and changes nothing else. In every state the SDK reaches the object
  of \<open>_lobbyInfo\<close> is none of the copies handed out. So a write to a returned object,
  whatever it changes, leaves \<open>_lobbyInfo\<close> and its object as they were; a later
  \<open>getLobbyInfo\<close> copies the unchanged properties; and every input other than a further
  write to the same object has the same effect whether it comes before or after the
  write: no operation of the SDK observes it.
\<close>

theorem getLobbyInfo_copy_is_private:
  "(lobbyInfo s = None \<longrightarrow> getLobbyInfo s = (None, s)) \<and>
   (lobbyInfo s = Some a \<longrightarrow>
      getLobbyInfo s =
        (Some (length (objs s)),
         s\<lparr> objs := objs s @ [objs s ! a], returned := returned s @ [length (objs s)] \<rparr>)) \<and>
   store_ok (dispatch_each steps initial) \<and>
   (store_ok s \<and> r \<in> set (returned s) \<longrightarrow>
      lobbyInfo (mutate r h s) = lobbyInfo s \<and>
      store_ok (mutate r h s) \<and>
      (lobbyInfo s = Some a \<longrightarrow>
         objs (mutate r h s) ! a = objs s ! a \<and>
         objs (snd (getLobbyInfo (mutate r h s))) ! length (objs s) = objs s ! a) \<and>
      (\<not> writes r inp \<longrightarrow>
         dispatch rnd inp (mutate r h s) = mutate r h (dispatch rnd inp s)))"
proof (intro conjI impI)
  show "store_ok (dispatch_each steps initial)"
    using store_ok_dispatch_each[OF store_ok_initial] .
next
  assume "lobbyInfo s = None"
  then show "getLobbyInfo s = (None, s)" by (simp add: getLobbyInfo_def)
next
  assume "lobbyInfo s = Some a"
  then show "getLobbyInfo s =
        (Some (length (objs s)),
         s\<lparr> objs := objs s @ [objs s ! a], returned := returned s @ [length (objs s)] \<rparr>)"
    by (simp add: getLobbyInfo_def alloc_def)
next
  assume w: "store_ok s \<and> r \<in> set (returned s)"
  show "lobbyInfo (mutate r h s) = lobbyInfo s" by (simp add: mutate_def)
  show "store_ok (mutate r h s)"
    using w store_ok_run[of s rnd "Write r h"] by simp
  assume n: "\<not> writes r inp"
  show "dispatch rnd inp (mutate r h s) = mutate r h (dispatch rnd inp s)"
    using dispatch_written[of s r inp rnd h] w n by simp
next
  assume w: "store_ok s \<and> r \<in> set (returned s)" and i: "lobbyInfo s = Some a"
  then have d: "a \<noteq> r" "a < length (objs s)" by (auto simp add: store_ok_def)
  then show "objs (mutate r h s) ! a = objs s ! a" by (simp add: mutate_def)
  show "objs (snd (getLobbyInfo (mutate r h s))) ! length (objs s) = objs s ! a"
    using d i by (simp add: getLobbyInfo_def mutate_def alloc_def nth_append)
qed

theorem getLobbyInfo_copy_is_private_witness:
  "getLobbyInfo initial = (None, initial) \<and>
   lobbyInfo in_lobby = Some 0 \<and> store_ok in_lobby \<and> 1 \<in> set (returned in_lobby) \<and>
   objs (mutate 1 rename in_lobby) ! 1 =
     \<lparr> lobbyId = ''L1'', lobbyName = ''Mine'', isPublic = False, ownerId = Some ''p_r'',
       maxPlayers = 4 \<rparr> \<and>
   lobbyInfo (mutate 1 rename in_lobby) = Some 0 \<and>
   objs (mutate 1 rename in_lobby) ! 0 =
     \<lparr> lobbyId = ''L1'', lobbyName = ''Arena'', isPublic = False, ownerId = Some ''p_ann'',
       maxPlayers = 4 \<rparr> \<and>
   fst (getLobbyInfo (mutate 1 rename in_lobby)) = Some 2 \<and>
   objs (snd (getLobbyInfo (mutate 1 rename in_lobby))) ! 2 =
     \<lparr> lobbyId = ''L1'', lobbyName = ''Arena'', isPublic = False, ownerId = Some ''p_ann'',
       maxPlayers = 4 \<rparr> \<and>
   dispatch ''r'' (SockMessage 0 (Parsed (Lobby_owner_changed ''p_r''))) (mutate 1 rename in_lobby) =
     mutate 1 rename (dispatch ''r'' (SockMessage 0 (Parsed (Lobby_owner_changed ''p_r''))) in_lobby)"
proof -
  note t0 = getLobbyInfo_copy_is_private[where s = initial, THEN conjunct1]
  note t1 = getLobbyInfo_copy_is_private[where s = in_lobby and a = 0 and r = 1 and h = rename
      and rnd = "''r''" and inp = "SockMessage 0 (Parsed (Lobby_owner_changed ''p_r''))",
      THEN conjunct2, THEN conjunct2, THEN conjunct2]
  note t2 = getLobbyInfo_copy_is_private[where s = "mutate 1 rename in_lobby" and a = 0,
      THEN conjunct2, THEN conjunct1]
  have w: "store_ok in_lobby \<and> 1 \<in> set (returned in_lobby)"
    by (simp add: store_ok_def in_lobby_state)
  have m: "objs (mutate 1 rename in_lobby) ! 1 =
     \<lparr> lobbyId = ''L1'', lobbyName = ''Mine'', isPublic = False, ownerId = Some ''p_r'',
       maxPlayers = 4 \<rparr>"
    by (simp add: mutate_def in_lobby_state rename_def)
  have l: "length (objs (mutate 1 rename in_lobby)) = 2"
    by (simp add: mutate_def in_lobby_state)
  have a: "getLobbyInfo initial = (None, initial)" using t0 by (simp add: initial_def)
  have b: "lobbyInfo (mutate 1 rename in_lobby) = Some 0 \<and>
     objs (mutate 1 rename in_lobby) ! 0 =
       \<lparr> lobbyId = ''L1'', lobbyName = ''Arena'', isPublic = False, ownerId = Some ''p_ann'',
         maxPlayers = 4 \<rparr> \<and>
     objs (snd (getLobbyInfo (mutate 1 rename in_lobby))) ! 2 =
       \<lparr> lobbyId = ''L1'', lobbyName = ''Arena'', isPublic = False, ownerId = Some ''p_ann'',
         maxPlayers = 4 \<rparr> \<and>
     dispatch ''r'' (SockMessage 0 (Parsed (Lobby_owner_changed ''p_r''))) (mutate 1 rename in_lobby) =
       mutate 1 rename (dispatch ''r'' (SockMessage 0 (Parsed (Lobby_owner_changed ''p_r''))) in_lobby)"
    using t1 w by (simp add: in_lobby_state numeral_2_eq_2)
  have c: "fst (getLobbyInfo (mutate 1 rename in_lobby)) = Some 2"
    using t2 b l by simp
  show ?thesis using a b c w m by (simp add: in_lobby_state)
qed

end
